theory Spec2Isabelle
  imports Main "HOL-Library.Sublist"
begin

section \<open>Python strings\<close>

text \<open>
  A Python \<open>str\<close> is modelled as a \<open>string\<close>; a \<open>char\<close> stands for a code point below
  256. Every literal of the crawler is ASCII.
\<close>

definition startswith :: "string \<Rightarrow> string \<Rightarrow> bool" where
  "startswith s p = (take (length p) s = p)"

definition endswith :: "string \<Rightarrow> string \<Rightarrow> bool" where
  "endswith s p = (length p \<le> length s \<and> drop (length s - length p) s = p)"

text \<open>
  \<open>str.isspace\<close> on the code points below 256: TAB, LF, VT, FF, CR, the four separators
  0x1C..0x1F, SPACE, NEL (0x85) and NBSP (0xA0).
\<close>

definition py_isspace :: "char \<Rightarrow> bool" where
  "py_isspace c =
     (let n = (of_char c :: nat)
      in (9 \<le> n \<and> n \<le> 13) \<or> (28 \<le> n \<and> n \<le> 32) \<or> n = 133 \<or> n = 160)"

text \<open>\<open>str.strip()\<close>: white space removed at both ends, nothing in between.\<close>

definition py_strip :: "string \<Rightarrow> string" where
  "py_strip s = rev (dropWhile py_isspace (rev (dropWhile py_isspace s)))"

definition digit_char :: "nat \<Rightarrow> char" where
  "digit_char d = ''0123456789'' ! d"

function str_nat :: "nat \<Rightarrow> string" where
  "str_nat n = (if n < 10 then [digit_char n] else str_nat (n div 10) @ [digit_char (n mod 10)])"
  by pat_completeness auto
termination
  by (relation "measure id") auto

declare str_nat.simps [simp del]

text \<open>\<open>str(i)\<close> of a Python integer, as the f-strings and \<open>str(year)\<close> compute it.\<close>

definition str_int :: "int \<Rightarrow> string" where
  "str_int i = (if i < 0 then CHR ''-'' # str_nat (nat (- i)) else str_nat (nat i))"

section \<open>Configuration\<close>

definition BASE_URL :: string where
  "BASE_URL = ''https://charm.li''"

definition OUTPUT_CSV :: string where
  "OUTPUT_CSV = ''charm_manifest.csv''"

text \<open>\<open>THROTTLE = 0.3\<close> seconds, kept in milliseconds.\<close>

definition THROTTLE :: nat where
  "THROTTLE = 300"

definition YEAR_START :: int where
  "YEAR_START = 1980"

definition YEAR_END :: int where
  "YEAR_END = 2024"

definition MAKES :: "string list" where
  "MAKES =
    [''Acura'', ''Audi'', ''BMW'', ''Buick'', ''Cadillac'', ''Chevrolet'', ''Chrysler'',
     ''Daewoo'', ''Daihatsu'', ''Dodge%20and%20Ram'', ''Eagle'', ''Fiat'', ''Ford'',
     ''Freightliner'', ''GMC'', ''Geo'', ''Honda'', ''Hummer'', ''Hyundai'', ''Infiniti'',
     ''Isuzu'', ''Jaguar'', ''Jeep'', ''Kia'', ''Land%20Rover'', ''Lexus'', ''Lincoln'',
     ''Mazda'', ''Mercedes%20Benz'', ''Mercury'', ''Mini'', ''Mitsubishi'', ''Nissan-Datsun'',
     ''Oldsmobile'', ''Peugeot'', ''Plymouth'', ''Pontiac'', ''Porsche'', ''Renault'', ''SRT'',
     ''Saab'', ''Saturn'', ''Scion'', ''Smart'', ''Subaru'', ''Suzuki'', ''Toyota'', ''UD'',
     ''Volkswagen'', ''Volvo'', ''Workhorse'', ''Yugo'']"

section \<open>The outside world and the run state\<close>

text \<open>
  What \<open>requests.get\<close> can come back with: a response, of which the crawler reads
  \<open>status_code\<close> and \<open>text\<close>, or a \<open>RequestException\<close>. A DNS failure reaches the caller
  as a connection error of \<open>requests\<close>; it has a constructor of its own here so that it can
  be named.
\<close>

datatype net_failure = Timeout | ConnectionError | DnsFailure | OtherRequestFailure

datatype response = Response nat string | Failure net_failure

text \<open>The \<open>RequestException\<close> caught in \<open>get_models_for_year\<close>: raised by the transport, or
  the \<open>HTTPError\<close> of \<open>raise_for_status\<close>.\<close>

datatype request_exception = Transport net_failure | HTTPError nat

text \<open>An element selected by \<open>a[href]\<close>: the value of its \<open>href\<close> attribute and its text
  nodes in document order.\<close>

record anchor =
  attr_href :: string
  strings :: "string list"

text \<open>
  The remote server answers the \<open>n\<close>-th request of the run for a URL; the answer may change
  from one request to the next. \<open>select_a_href\<close> stands for
  \<open>BeautifulSoup(text, "html.parser").select("a[href]")\<close>, a library that is not part of the
  repository: the matching elements of the markup, in document order.
\<close>

record world =
  http :: "nat \<Rightarrow> string \<Rightarrow> response"
  select_a_href :: "string \<Rightarrow> anchor list"

text \<open>One row of the manifest: the dictionary with the keys \<open>make\<close>, \<open>model\<close>, \<open>year\<close>,
  \<open>bundle_url\<close>.\<close>

record entry =
  e_make :: string
  e_model :: string
  e_year :: string
  e_bundle_url :: string

text \<open>Everything the run does that can be seen from outside, in the order it happens.\<close>

datatype event =
    Sleep nat
  | HttpGet string nat response
  | LogChecking string
  | LogFound string int
  | LogWarning string request_exception
  | LogWrote nat string
  | Unlink string
  | WriteFile string string

record state =
  manifest :: "entry list"
  trace :: "event list"
  sent :: nat
  files :: "string \<rightharpoonup> string"

definition emit :: "event \<Rightarrow> state \<Rightarrow> state" where
  "emit ev st = st\<lparr>trace := trace st @ [ev]\<rparr>"

text \<open>\<open>requests.get(url, headers=HEADERS, timeout=t)\<close>: one outbound request.\<close>

definition requests_get :: "world \<Rightarrow> string \<Rightarrow> nat \<Rightarrow> state \<Rightarrow> response \<times> state" where
  "requests_get w url timeout st =
     (let r = http w (sent st) url
      in (r, (emit (HttpGet url timeout r) st)\<lparr>sent := Suc (sent st)\<rparr>))"

section \<open>Prober\<close>

text \<open>The make is written \<open>mk\<close> throughout: \<open>make\<close> is taken by the record package.\<close>

definition probe_year :: "world \<Rightarrow> string \<Rightarrow> int \<Rightarrow> state \<Rightarrow> string option \<times> state" where
  "probe_year w mk year st =
     (let url = BASE_URL @ ''/'' @ mk @ ''/'' @ str_int year @ ''/'';
          (r, st') = requests_get w url 10 st
      in case r of
           Response status_code body \<Rightarrow>
             if status_code = 200 then (Some url, st') else (None, st')
         | Failure f \<Rightarrow> (None, st'))"

section \<open>Page Scraper\<close>

text \<open>
  \<open>a.get_text(strip=True)\<close> of the parser library: every text node is stripped, the empty
  ones are dropped and the rest is joined with no separator.
\<close>

definition get_text_strip :: "anchor \<Rightarrow> string" where
  "get_text_strip a = concat (filter (\<lambda>s. s \<noteq> []) (map py_strip (strings a)))"

text \<open>The \<open>for a in soup.select("a[href]")\<close> loop, with \<open>entries\<close> as its accumulator.\<close>

fun anchors_loop :: "string \<Rightarrow> anchor list \<Rightarrow> (string \<times> string) list \<Rightarrow> (string \<times> string) list" where
  "anchors_loop pfx [] entries = entries"
| "anchors_loop pfx (a # rest) entries =
     (let href = py_strip (attr_href a)
      in if startswith href pfx \<and> \<not> endswith href ''/bundle/''
         then (let model = get_text_strip a;
                   bundle = BASE_URL @ ''/bundle'' @ href
               in anchors_loop pfx rest (entries @ [(model, bundle)]))
         else anchors_loop pfx rest entries)"

text \<open>\<open>r.raise_for_status()\<close> raises \<open>HTTPError\<close> for the statuses 400 to 599.\<close>

definition raise_for_status :: "nat \<Rightarrow> request_exception option" where
  "raise_for_status status_code =
     (if 400 \<le> status_code \<and> status_code < 600 then Some (HTTPError status_code) else None)"

definition get_models_for_year ::
  "world \<Rightarrow> string \<Rightarrow> int \<Rightarrow> string \<Rightarrow> state \<Rightarrow> (string \<times> string) list \<times> state" where
  "get_models_for_year w mk year year_url st =
     (let (r, st') = requests_get w year_url 15 st
      in case r of
           Failure f \<Rightarrow> ([], emit (LogWarning year_url (Transport f)) st')
         | Response status_code text \<Rightarrow>
             (case raise_for_status status_code of
                Some e \<Rightarrow> ([], emit (LogWarning year_url e) st')
              | None \<Rightarrow>
                  (let soup = select_a_href w text;
                       pfx = ''/'' @ mk @ ''/'' @ str_int year @ ''/''
                   in (anchors_loop pfx soup [], st'))))"

section \<open>Manifest Builder\<close>

definition hex_val :: "char \<Rightarrow> nat option" where
  "hex_val c = map_of (zip ''0123456789abcdefABCDEF''
     [0, 1, 2, 3, 4, 5, 6, 7, 8, 9, 10, 11, 12, 13, 14, 15, 10, 11, 12, 13, 14, 15]) c"

text \<open>
  \<open>requests.utils.unquote\<close>, that is \<open>urllib.parse.unquote\<close>: a percent sign followed by two
  hexadecimal digits becomes the character with that code, any other percent sign stays.
  Python goes on to decode runs of such bytes as UTF-8; for escapes below 0x80, the only
  ones in \<open>MAKES\<close>, that changes nothing.
\<close>

fun unquote :: "string \<Rightarrow> string" where
  "unquote (c # h1 # h2 # rest) =
     (if c = CHR ''%'' then
        (case (hex_val h1, hex_val h2) of
           (Some a, Some b) \<Rightarrow> char_of (16 * a + b) # unquote rest
         | _ \<Rightarrow> c # unquote (h1 # h2 # rest))
      else c # unquote (h1 # h2 # rest))"
| "unquote s = s"

text \<open>The \<open>for model, bundle_url in entries\<close> loop appending to \<open>manifest\<close>.\<close>

fun append_loop :: "string \<Rightarrow> int \<Rightarrow> (string \<times> string) list \<Rightarrow> entry list \<Rightarrow> entry list" where
  "append_loop mk year [] acc = acc"
| "append_loop mk year ((model, bundle_url) # rest) acc =
     append_loop mk year rest
       (acc @ [\<lparr>e_make = unquote mk, e_model = model, e_year = str_int year,
                e_bundle_url = bundle_url\<rparr>])"

text \<open>
  The body of \<open>for year in range(YEAR_START, YEAR_END + 1)\<close>. \<open>if not year_url: continue\<close>
  leaves the body on \<open>None\<close> and on the empty string.
\<close>

definition year_body :: "world \<Rightarrow> string \<Rightarrow> int \<Rightarrow> state \<Rightarrow> state" where
  "year_body w mk year st =
     (let (year_url, st1) = probe_year w mk year st
      in case year_url of
           None \<Rightarrow> st1
         | Some u \<Rightarrow>
             if u = [] then st1
             else (let st2 = emit (LogFound mk year) st1;
                       (entries, st3) = get_models_for_year w mk year u st2;
                       st4 = st3\<lparr>manifest := append_loop mk year entries (manifest st3)\<rparr>
                   in emit (Sleep THROTTLE) st4))"

fun year_loop :: "world \<Rightarrow> string \<Rightarrow> int list \<Rightarrow> state \<Rightarrow> state" where
  "year_loop w mk [] st = st"
| "year_loop w mk (year # years) st = year_loop w mk years (year_body w mk year st)"

text \<open>The body of \<open>for make in MAKES\<close>; \<open>disp\<close> is computed there and never read.\<close>

definition make_body :: "world \<Rightarrow> string \<Rightarrow> state \<Rightarrow> state" where
  "make_body w mk st =
     year_loop w mk [YEAR_START..YEAR_END] (emit (Sleep THROTTLE) (emit (LogChecking mk) st))"

fun make_loop :: "world \<Rightarrow> string list \<Rightarrow> state \<Rightarrow> state" where
  "make_loop w [] st = st"
| "make_loop w (mk # makes) st = make_loop w makes (make_body w mk st)"

subsection \<open>Writing the CSV\<close>

definition CR :: char where
  "CR = CHR 0x0D"

definition LF :: char where
  "LF = CHR 0x0A"

definition DQUOTE :: char where
  "DQUOTE = CHR 0x22"

text \<open>
  The \<open>csv\<close> writer with its default dialect: minimal quoting (a field holding the
  delimiter, the quote character or a character of the line terminator is quoted, quote
  characters doubled), fields joined by a comma, each row ended by CR LF.
\<close>

definition csv_must_quote :: "string \<Rightarrow> bool" where
  "csv_must_quote s = (\<exists>c \<in> set s. c = CHR '','' \<or> c = DQUOTE \<or> c = CR \<or> c = LF)"

definition csv_field :: "string \<Rightarrow> string" where
  "csv_field s =
     (if csv_must_quote s
      then [DQUOTE] @ concat (map (\<lambda>c. if c = DQUOTE then [DQUOTE, DQUOTE] else [c]) s) @ [DQUOTE]
      else s)"

fun join_comma :: "string list \<Rightarrow> string" where
  "join_comma [] = []"
| "join_comma [f] = f"
| "join_comma (f # g # fs) = f @ '','' @ join_comma (g # fs)"

definition writerow :: "string list \<Rightarrow> string" where
  "writerow row = join_comma (map csv_field row) @ [CR, LF]"

definition keys :: "string list" where
  "keys = [''make'', ''model'', ''year'', ''bundle_url'']"

text \<open>\<open>DictWriter\<close> writes the values of a row in the order of \<open>fieldnames\<close>.\<close>

definition dict_row :: "entry \<Rightarrow> string list" where
  "dict_row e = [e_make e, e_model e, e_year e, e_bundle_url e]"

definition writeheader :: string where
  "writeheader = writerow keys"

definition writerows :: "entry list \<Rightarrow> string" where
  "writerows rows = concat (map (\<lambda>e. writerow (dict_row e)) rows)"

text \<open>\<open>Path(p).unlink(missing_ok=True)\<close> and \<open>open(p, "w")\<close> followed by the writes.\<close>

definition unlink_missing_ok :: "string \<Rightarrow> state \<Rightarrow> state" where
  "unlink_missing_ok path st = emit (Unlink path) (st\<lparr>files := (files st)(path := None)\<rparr>)"

definition write_file :: "string \<Rightarrow> string \<Rightarrow> state \<Rightarrow> state" where
  "write_file path content st =
     emit (WriteFile path content) (st\<lparr>files := (files st)(path \<mapsto> content)\<rparr>)"

definition init_state :: "(string \<rightharpoonup> string) \<Rightarrow> state" where
  "init_state fs = \<lparr>manifest = [], trace = [], sent = 0, files = fs\<rparr>"

definition build_and_write_manifest :: "world \<Rightarrow> (string \<rightharpoonup> string) \<Rightarrow> state" where
  "build_and_write_manifest w fs =
     (let st = make_loop w MAKES (init_state fs);
          st1 = unlink_missing_ok OUTPUT_CSV st;
          st2 = write_file OUTPUT_CSV (writeheader @ writerows (manifest st1)) st1
      in emit (LogWrote (length (manifest st2)) OUTPUT_CSV) st2)"

section \<open>Manifest lookup\<close>

text \<open>
  The \<open>manifest\<close> table has the four text columns of the CSV; its rows are taken in scan
  order. \<open>LIKE\<close> patterns: \<open>%\<close> matches any run of characters, \<open>_\<close> exactly one, and there
  is no escape character unless one is declared.
\<close>

fun like_match :: "string \<Rightarrow> string \<Rightarrow> bool" where
  "like_match [] s = (s = [])"
| "like_match (p # ps) [] = (p = CHR ''%'' \<and> like_match ps [])"
| "like_match (p # ps) (c # cs) =
     (if p = CHR ''%'' then like_match ps (c # cs) \<or> like_match (p # ps) cs
      else (p = CHR ''_'' \<or> p = c) \<and> like_match ps cs)"

definition ascii_lower :: "char \<Rightarrow> char" where
  "ascii_lower c =
     (case map_of (zip ''ABCDEFGHIJKLMNOPQRSTUVWXYZ'' ''abcdefghijklmnopqrstuvwxyz'') c of
        Some l \<Rightarrow> l
      | None \<Rightarrow> c)"

definition lower :: "string \<Rightarrow> string" where
  "lower s = map ascii_lower s"

text \<open>\<open>text ILIKE pattern\<close>: \<open>LIKE\<close> without regard to letter case.\<close>

definition ilike :: "string \<Rightarrow> string \<Rightarrow> bool" where
  "ilike text pattern = like_match (lower pattern) (lower text)"

text \<open>
  \<open>QueryManifestTool._run\<close>: the \<open>bundle_url\<close> column of
  \<open>SELECT bundle_url FROM manifest WHERE make = ? AND model ILIKE '%' || ? || '%' AND year = ?
  LIMIT 1\<close>, one dictionary per row.
\<close>

definition query_manifest_run :: "entry list \<Rightarrow> string \<Rightarrow> string \<Rightarrow> string \<Rightarrow> string list" where
  "query_manifest_run table mk model year =
     take 1 (map e_bundle_url
       (filter (\<lambda>r. e_make r = mk \<and> ilike (e_model r) (''%'' @ model @ ''%'') \<and> e_year r = year)
          table))"

section \<open>Notions used in the properties\<close>

text \<open>The URL of the listing page of a make and a year, as \<open>probe_year\<close> builds it.\<close>

abbreviation listing_url :: "string \<Rightarrow> int \<Rightarrow> string" where
  "listing_url mk year \<equiv> BASE_URL @ ''/'' @ mk @ ''/'' @ str_int year @ ''/''"

text \<open>The entries that one iteration of the year loop appends to the manifest.\<close>

definition emitted :: "world \<Rightarrow> string \<Rightarrow> int \<Rightarrow> state \<Rightarrow> entry list" where
  "emitted w mk year st = drop (length (manifest st)) (manifest (year_body w mk year st))"

text \<open>Three servers: one that has every page, one that has none, one that is unreachable.\<close>

definition up_world :: world where
  "up_world = \<lparr>http = (\<lambda>n url. Response 200 ''page''), select_a_href = (\<lambda>text. [])\<rparr>"

definition gone_world :: world where
  "gone_world = \<lparr>http = (\<lambda>n url. Response 404 ''not found''), select_a_href = (\<lambda>text. [])\<rparr>"

definition dead_world :: world where
  "dead_world = \<lparr>http = (\<lambda>n url. Failure ConnectionError), select_a_href = (\<lambda>text. [])\<rparr>"

text \<open>A server whose first answer is a page and whose every later answer is a time-out, and
  a parser that finds the two links of the Toyota 2006 listing.\<close>

definition flaky_world :: world where
  "flaky_world =
     \<lparr>http = (\<lambda>n url. if n = 0 then Response 200 ''page'' else Failure Timeout),
      select_a_href = (\<lambda>text. [])\<rparr>"

definition camry_anchor :: anchor where
  "camry_anchor = \<lparr>attr_href = ''/Toyota/2006/camry-le/'', strings = [''Camry LE'']\<rparr>"

definition bundle_anchor :: anchor where
  "bundle_anchor = \<lparr>attr_href = ''/Toyota/2006/camry-le/bundle/'', strings = [''All manuals'']\<rparr>"

definition toyota_world :: world where
  "toyota_world =
     \<lparr>http = (\<lambda>n url. Response 200 ''page''),
      select_a_href = (\<lambda>text. [camry_anchor, bundle_anchor])\<rparr>"

text \<open>The links that the scraper keeps: the \<open>href\<close>, white space at its two ends removed,
  starts with \<open>/make/year/\<close> and does not end with \<open>/bundle/\<close>.\<close>

definition detail_link :: "string \<Rightarrow> int \<Rightarrow> anchor \<Rightarrow> bool" where
  "detail_link mk year a =
     (startswith (py_strip (attr_href a)) (''/'' @ mk @ ''/'' @ str_int year @ ''/'')
      \<and> \<not> endswith (py_strip (attr_href a)) ''/bundle/'')"

text \<open>The stripped link text in the words of the specification: the text of the link as a
  whole, white space removed at its two ends and nowhere else.\<close>

definition stripped_link_text :: "anchor \<Rightarrow> string" where
  "stripped_link_text a = py_strip (concat (strings a))"

text \<open>A listing whose only link has its text in three nodes, the middle one a space.\<close>

definition nested_anchor :: anchor where
  "nested_anchor = \<lparr>attr_href = ''/Acura/1980/integra/'', strings = [''Integra'', '' '', ''LS'']\<rparr>"

definition nested_world :: world where
  "nested_world =
     \<lparr>http = (\<lambda>n url. Response 200 ''page''), select_a_href = (\<lambda>text. [nested_anchor])\<rparr>"

text \<open>A listing whose links are padded with white space, in the \<open>href\<close> and in the text.\<close>

definition padded_anchor :: anchor where
  "padded_anchor =
     \<lparr>attr_href = ''  /Toyota/2006/camry-le/ '', strings = [CHR 0x0A # ''   Camry LE  '']\<rparr>"

definition padded_bundle_anchor :: anchor where
  "padded_bundle_anchor =
     \<lparr>attr_href = '' /Toyota/2006/camry-le/bundle/  '', strings = [''All manuals'']\<rparr>"

definition padded_world :: world where
  "padded_world =
     \<lparr>http = (\<lambda>n url. Response 200 ''page''),
      select_a_href = (\<lambda>text. [padded_anchor, padded_bundle_anchor])\<rparr>"

text \<open>A server that answers the probe with 200 and the fetch with 304 and a page.\<close>

definition not_modified_world :: world where
  "not_modified_world =
     \<lparr>http = (\<lambda>n url. if n = 0 then Response 200 ''page'' else Response 304 ''page''),
      select_a_href = (\<lambda>text. [camry_anchor, bundle_anchor])\<rparr>"

text \<open>A server that moved the listing: the same markup under status 203, at another
  address and another moment of the run.\<close>

definition mirror_world :: world where
  "mirror_world =
     \<lparr>http = (\<lambda>n url. if n = 7 then Response 203 ''page'' else Failure DnsFailure),
      select_a_href = (\<lambda>text. [camry_anchor, bundle_anchor])\<rparr>"

definition camry_entry :: entry where
  "camry_entry =
     \<lparr>e_make = ''Toyota'', e_model = ''Camry LE'', e_year = ''2006'',
      e_bundle_url = ''https://charm.li/bundle/Toyota/2006/camry-le/''\<rparr>"

text \<open>A server that has the Dodge and Ram page of 1980 only. The page has two links with
  literal spaces in their \<open>href\<close>; the second has the name of the make there.\<close>

definition dodge_world :: world where
  "dodge_world =
     \<lparr>http = (\<lambda>n url. if url = ''https://charm.li/Dodge%20and%20Ram/1980/''
                       then Response 200 ''page'' else Response 404 ''''),
      select_a_href = (\<lambda>text.
        [\<lparr>attr_href = ''/Dodge%20and%20Ram/1980/ram 50/'', strings = [''Ram 50'']\<rparr>,
         \<lparr>attr_href = ''/Dodge%20and%20Ram/1980/Dodge and Ram/'', strings = [''Ramcharger'']\<rparr>])\<rparr>"

definition ram50_entry :: entry where
  "ram50_entry =
     \<lparr>e_make = ''Dodge and Ram'', e_model = ''Ram 50'', e_year = ''1980'',
      e_bundle_url = ''https://charm.li/bundle/Dodge%20and%20Ram/1980/ram 50/''\<rparr>"

definition ramcharger_entry :: entry where
  "ramcharger_entry =
     \<lparr>e_make = ''Dodge and Ram'', e_model = ''Ramcharger'', e_year = ''1980'',
      e_bundle_url = ''https://charm.li/bundle/Dodge%20and%20Ram/1980/Dodge and Ram/''\<rparr>"

text \<open>The number of lines of a text: the number of its line feeds.\<close>

definition count_lines :: "string \<Rightarrow> nat" where
  "count_lines s = length (filter (\<lambda>c. c = LF) s)"

text \<open>A server that answers the first two requests of a run, the probe and the fetch of the
  Acura 1980 page, and is unreachable from then on. The text of the only link of the page
  runs over two lines.\<close>

definition newline_world :: world where
  "newline_world =
     \<lparr>http = (\<lambda>n url. if n < 2 then Response 200 ''page'' else Failure ConnectionError),
      select_a_href = (\<lambda>text.
        [\<lparr>attr_href = ''/Acura/1980/integra/'', strings = [''Integra'' @ [LF] @ ''LS'']\<rparr>])\<rparr>"

definition integra_entry :: entry where
  "integra_entry =
     \<lparr>e_make = ''Acura'', e_model = ''Integra'' @ [LF] @ ''LS'', e_year = ''1980'',
      e_bundle_url = ''https://charm.li/bundle/Acura/1980/integra/''\<rparr>"

text \<open>The same server with a page whose link text is on one line.\<close>

definition acura_world :: world where
  "acura_world =
     \<lparr>http = (\<lambda>n url. if n < 2 then Response 200 ''page'' else Failure ConnectionError),
      select_a_href = (\<lambda>text.
        [\<lparr>attr_href = ''/Acura/1980/integra/'', strings = [''Integra LS'']\<rparr>])\<rparr>"

definition integra_ls_entry :: entry where
  "integra_ls_entry =
     \<lparr>e_make = ''Acura'', e_model = ''Integra LS'', e_year = ''1980'',
      e_bundle_url = ''https://charm.li/bundle/Acura/1980/integra/''\<rparr>"

text \<open>
  The throttling rule in the words of the specification: every request has a sleep of the
  configured duration between it and the request before it (or the start of the run). The
  flag tells whether such a sleep has happened since the last request.
\<close>

fun throttled :: "bool \<Rightarrow> event list \<Rightarrow> bool" where
  "throttled slept [] = True"
| "throttled slept (Sleep d # evs) = throttled (slept \<or> d = THROTTLE) evs"
| "throttled slept (HttpGet url t r # evs) = (slept \<and> throttled False evs)"
| "throttled slept (ev # evs) = throttled slept evs"

definition f150_row :: entry where
  "f150_row =
     \<lparr>e_make = ''Ford'', e_model = ''F-150'', e_year = ''2006'',
      e_bundle_url = ''https://charm.li/bundle/Ford/2006/f-150/''\<rparr>"

section \<open>Basic facts\<close>

lemma emit_simps [simp]:
  "manifest (emit ev st) = manifest st"
  "trace (emit ev st) = trace st @ [ev]"
  "sent (emit ev st) = sent st"
  "files (emit ev st) = files st"
  by (simp_all add: emit_def)

lemma requests_get_fst [simp]: "fst (requests_get w url t st) = http w (sent st) url"
  by (simp add: requests_get_def Let_def)

lemma requests_get_snd [simp]:
  "manifest (snd (requests_get w url t st)) = manifest st"
  "trace (snd (requests_get w url t st)) = trace st @ [HttpGet url t (http w (sent st) url)]"
  "sent (snd (requests_get w url t st)) = Suc (sent st)"
  "files (snd (requests_get w url t st)) = files st"
  by (simp_all add: requests_get_def Let_def)

lemma probe_year_fst:
  "fst (probe_year w mk year st) =
     (case http w (sent st) (listing_url mk year) of
        Response code body \<Rightarrow> if code = 200 then Some (listing_url mk year) else None
      | Failure f \<Rightarrow> None)"
  by (simp add: probe_year_def Let_def split_beta split: response.split)

lemma probe_year_snd: "snd (probe_year w mk year st) = snd (requests_get w (listing_url mk year) 10 st)"
  by (simp add: probe_year_def Let_def split_beta split: response.split)

lemma probe_year_Some: "fst (probe_year w mk year st) = Some u \<Longrightarrow> u = listing_url mk year"
  by (auto simp: probe_year_fst split: response.splits if_splits)

lemma listing_url_nonempty: "listing_url mk year \<noteq> []"
  by (simp add: BASE_URL_def)

lemma anchors_loop_eq:
  "anchors_loop pfx as acc =
     acc @ map (\<lambda>a. (get_text_strip a, BASE_URL @ ''/bundle'' @ py_strip (attr_href a)))
             (filter (\<lambda>a. startswith (py_strip (attr_href a)) pfx
                          \<and> \<not> endswith (py_strip (attr_href a)) ''/bundle/'') as)"
  by (induction as arbitrary: acc) (simp_all add: Let_def)

lemma append_loop_eq:
  "append_loop mk year entries acc =
     acc @ map (\<lambda>(model, bundle_url). \<lparr>e_make = unquote mk, e_model = model,
                  e_year = str_int year, e_bundle_url = bundle_url\<rparr>) entries"
  by (induction entries arbitrary: acc) auto

lemma get_models_snd [simp]:
  "manifest (snd (get_models_for_year w mk year u st)) = manifest st"
  "sent (snd (get_models_for_year w mk year u st)) = Suc (sent st)"
  "files (snd (get_models_for_year w mk year u st)) = files st"
  by (simp_all add: get_models_for_year_def Let_def split_beta split: response.split option.split)

lemma get_models_trace:
  "trace (snd (get_models_for_year w mk year u st)) =
     trace st @ HttpGet u 15 (http w (sent st) u) #
       (case http w (sent st) u of
          Failure f \<Rightarrow> [LogWarning u (Transport f)]
        | Response code text \<Rightarrow>
            (case raise_for_status code of Some e \<Rightarrow> [LogWarning u e] | None \<Rightarrow> []))"
  by (simp add: get_models_for_year_def Let_def split_beta split: response.split option.split)

lemma year_body_manifest:
  "manifest (year_body w mk year st) =
     manifest st @
       (case fst (probe_year w mk year st) of
          None \<Rightarrow> []
        | Some u \<Rightarrow>
            map (\<lambda>(model, bundle_url). \<lparr>e_make = unquote mk, e_model = model,
                   e_year = str_int year, e_bundle_url = bundle_url\<rparr>)
              (fst (get_models_for_year w mk year u
                      (emit (LogFound mk year) (snd (probe_year w mk year st))))))"
  apply (simp add: year_body_def Let_def split_beta append_loop_eq probe_year_snd split: option.split)
  apply (auto dest: probe_year_Some simp: listing_url_nonempty)
  done

lemma year_body_emitted: "manifest (year_body w mk year st) = manifest st @ emitted w mk year st"
  by (simp add: emitted_def year_body_manifest)

lemma emitted_eq:
  "emitted w mk year st =
     (case fst (probe_year w mk year st) of
        None \<Rightarrow> []
      | Some u \<Rightarrow>
          map (\<lambda>(model, bundle_url). \<lparr>e_make = unquote mk, e_model = model,
                 e_year = str_int year, e_bundle_url = bundle_url\<rparr>)
            (fst (get_models_for_year w mk year u
                    (emit (LogFound mk year) (snd (probe_year w mk year st))))))"
  by (simp add: emitted_def year_body_manifest)

lemma year_body_trace:
  "trace (year_body w mk year st) =
     trace st @ HttpGet (listing_url mk year) 10 (http w (sent st) (listing_url mk year)) #
       (case fst (probe_year w mk year st) of
          None \<Rightarrow> []
        | Some u \<Rightarrow>
            LogFound mk year # HttpGet u 15 (http w (Suc (sent st)) u) #
              (case http w (Suc (sent st)) u of
                 Failure f \<Rightarrow> [LogWarning u (Transport f)]
               | Response code text \<Rightarrow>
                   (case raise_for_status code of Some e \<Rightarrow> [LogWarning u e] | None \<Rightarrow> []))
              @ [Sleep THROTTLE])"
  apply (simp add: year_body_def Let_def split_beta probe_year_snd get_models_trace
      split: option.split)
  apply (auto dest: probe_year_Some simp: listing_url_nonempty)
  done

lemma year_body_sent:
  "sent (year_body w mk year st) =
     (case fst (probe_year w mk year st) of None \<Rightarrow> Suc (sent st) | Some u \<Rightarrow> Suc (Suc (sent st)))"
  apply (simp add: year_body_def Let_def split_beta probe_year_snd split: option.split)
  apply (auto dest: probe_year_Some simp: listing_url_nonempty)
  done

lemma year_body_files [simp]: "files (year_body w mk year st) = files st"
  by (simp add: year_body_def Let_def split_beta probe_year_snd split: option.split)

lemma year_body_sent_le: "sent st \<le> sent (year_body w mk year st)"
  by (simp add: year_body_sent split: option.split)

lemma year_body_trace_prefix: "prefix (trace st) (trace (year_body w mk year st))"
  by (simp add: year_body_trace)

lemma year_loop_inv:
  assumes "P st" and "\<And>y s. y \<in> set years \<Longrightarrow> P s \<Longrightarrow> P (year_body w mk y s)"
  shows "P (year_loop w mk years st)"
  using assms by (induction years arbitrary: st) simp_all

lemma make_loop_inv:
  assumes "P st" and "\<And>m s. m \<in> set makes \<Longrightarrow> P s \<Longrightarrow> P (make_body w m s)"
  shows "P (make_loop w makes st)"
  using assms by (induction makes arbitrary: st) simp_all

text \<open>An invariant of the whole scan: kept by every log line and sleep, and by every
  iteration of the year loop for a make and a year of the configuration.\<close>

lemma scan_inv:
  assumes init: "P st"
    and ev: "\<And>ev s. P s \<Longrightarrow> P (emit ev s)"
    and body: "\<And>m y s. m \<in> set makes \<Longrightarrow> YEAR_START \<le> y \<Longrightarrow> y \<le> YEAR_END \<Longrightarrow> P s
                 \<Longrightarrow> P (year_body w m y s)"
  shows "P (make_loop w makes st)"
proof (rule make_loop_inv [where P = P])
  show "P st" by (rule init)
next
  fix m s
  assume m: "m \<in> set makes" and s: "P s"
  show "P (make_body w m s)"
    unfolding make_body_def
  proof (rule year_loop_inv [where P = P])
    show "P (emit (Sleep THROTTLE) (emit (LogChecking m) s))"
      by (intro ev s)
  next
    fix y s'
    assume "y \<in> set [YEAR_START..YEAR_END]" and "P s'"
    then show "P (year_body w m y s')"
      using body [OF m] by simp
  qed
qed

lemma make_loop_trace_prefix: "prefix (trace st) (trace (make_loop w makes st))"
proof (rule scan_inv [where P = "\<lambda>s. prefix (trace st) (trace s)"])
  show "prefix (trace st) (trace st)" by simp
next
  fix ev and s :: state assume "prefix (trace st) (trace s)"
  then show "prefix (trace st) (trace (emit ev s))" by (auto simp: prefix_def)
next
  fix m y and s :: state assume "prefix (trace st) (trace s)"
  then show "prefix (trace st) (trace (year_body w m y s))"
    using year_body_trace_prefix prefix_order.trans by blast
qed

lemma make_loop_files [simp]: "files (make_loop w makes st) = files st"
  by (rule scan_inv [where P = "\<lambda>s. files s = files st"]) simp_all

lemma get_models_fst:
  "fst (get_models_for_year w mk year u st) =
     (case http w (sent st) u of
        Failure f \<Rightarrow> []
      | Response code text \<Rightarrow>
          (case raise_for_status code of
             Some e \<Rightarrow> []
           | None \<Rightarrow> anchors_loop (''/'' @ mk @ ''/'' @ str_int year @ ''/'') (select_a_href w text) []))"
  by (simp add: get_models_for_year_def Let_def split_beta split: response.split option.split)

lemma str_int_2006: "str_int 2006 = ''2006''"
  by (simp add: str_int_def str_nat.simps digit_char_def)

lemma listing_url_toyota_2006: "listing_url ''Toyota'' 2006 = ''https://charm.li/Toyota/2006/''"
  by (simp add: BASE_URL_def str_int_2006)

lemma dropWhile_append_keep:
  assumes "s \<noteq> []" and "\<not> P (hd s)"
  shows "\<exists>pre'. dropWhile P (pre @ s) = pre' @ s"
proof (cases "\<forall>x \<in> set pre. P x")
  case True
  with assms have "dropWhile P (pre @ s) = [] @ s"
    by (cases s) simp_all
  then show ?thesis by blast
next
  case False
  then have "dropWhile P (pre @ s) = dropWhile P pre @ s"
    by (auto simp: dropWhile_append)
  then show ?thesis by blast
qed

lemma endswith_iff: "endswith s p \<longleftrightarrow> (\<exists>pre. s = pre @ p)"
proof
  assume "endswith s p"
  then have "s = take (length s - length p) s @ p"
    unfolding endswith_def by (metis append_take_drop_id)
  then show "\<exists>pre. s = pre @ p" ..
next
  assume "\<exists>pre. s = pre @ p"
  then show "endswith s p" by (auto simp: endswith_def)
qed

lemma py_strip_keeps_suffix:
  assumes "endswith h s" and "s \<noteq> []" and "\<not> py_isspace (hd s)" and "\<not> py_isspace (last s)"
  shows "endswith (py_strip h) s"
proof -
  from assms(1) obtain pre where h: "h = pre @ s" by (auto simp: endswith_iff)
  from assms(2,3) have "\<exists>pre'. dropWhile py_isspace (pre @ s) = pre' @ s"
    by (rule dropWhile_append_keep)
  then obtain pre' where 1: "dropWhile py_isspace (pre @ s) = pre' @ s" ..
  have "\<not> py_isspace (hd (rev s))" using assms(2,4) by (simp add: hd_rev)
  with assms(2) have "dropWhile py_isspace (rev s @ rev pre') = rev s @ rev pre'"
    by (cases "rev s") simp_all
  then have "py_strip h = pre' @ s"
    by (simp add: py_strip_def h 1)
  then show ?thesis by (auto simp: endswith_iff)
qed

lemma py_strip_keeps_bundle: "endswith h ''/bundle/'' \<Longrightarrow> endswith (py_strip h) ''/bundle/''"
  by (rule py_strip_keeps_suffix) (simp_all add: py_isspace_def)

lemma startswith_iff: "startswith s p \<longleftrightarrow> (\<exists>rest. s = p @ rest)"
proof
  assume "startswith s p"
  then have "s = p @ drop (length p) s"
    unfolding startswith_def by (metis append_take_drop_id)
  then show "\<exists>rest. s = p @ rest" ..
next
  assume "\<exists>rest. s = p @ rest"
  then show "startswith s p" by (auto simp: startswith_def)
qed

lemma startswith_bundle:
  assumes "startswith href (''/'' @ mk @ ''/'' @ y @ ''/'')"
  shows "startswith (BASE_URL @ ''/bundle'' @ href) (BASE_URL @ ''/bundle/'' @ mk @ ''/'' @ y @ ''/'')"
proof -
  from assms obtain rest where "href = (''/'' @ mk @ ''/'' @ y @ ''/'') @ rest"
    unfolding startswith_iff ..
  then have "BASE_URL @ ''/bundle'' @ href = (BASE_URL @ ''/bundle/'' @ mk @ ''/'' @ y @ ''/'') @ rest"
    by simp
  then show ?thesis unfolding startswith_iff ..
qed

lemma get_models_entries:
  assumes "(model, bundle) \<in> set (fst (get_models_for_year w mk year u st))"
  shows "\<exists>a \<in> set (select_a_href w (case http w (sent st) u of Response c t \<Rightarrow> t | Failure f \<Rightarrow> [])).
           model = get_text_strip a \<and> bundle = BASE_URL @ ''/bundle'' @ py_strip (attr_href a)
           \<and> startswith (py_strip (attr_href a)) (''/'' @ mk @ ''/'' @ str_int year @ ''/'')
           \<and> \<not> endswith (py_strip (attr_href a)) ''/bundle/''"
  using assms
  by (auto simp: get_models_fst anchors_loop_eq split: response.splits option.splits)

lemma emitted_origin:
  assumes "e \<in> set (emitted w mk year st)"
  shows "e_make e = unquote mk" and "e_year e = str_int year"
    and "startswith (e_bundle_url e) (BASE_URL @ ''/bundle/'' @ mk @ ''/'' @ str_int year @ ''/'')"
    and "\<exists>body. http w (sent st) (listing_url mk year) = Response 200 body"
proof -
  from assms obtain u where p: "fst (probe_year w mk year st) = Some u"
    by (cases "fst (probe_year w mk year st)") (simp_all add: emitted_eq)
  with assms obtain model burl where
    e: "e = \<lparr>e_make = unquote mk, e_model = model, e_year = str_int year, e_bundle_url = burl\<rparr>"
    and m: "(model, burl) \<in> set (fst (get_models_for_year w mk year u
              (emit (LogFound mk year) (snd (probe_year w mk year st)))))"
    by (auto simp: emitted_eq)
  from e show "e_make e = unquote mk" and "e_year e = str_int year" by simp_all
  from get_models_entries [OF m] obtain a :: anchor where
    "burl = BASE_URL @ ''/bundle'' @ py_strip (attr_href a)"
    "startswith (py_strip (attr_href a)) (''/'' @ mk @ ''/'' @ str_int year @ ''/'')"
    by blast
  with e show "startswith (e_bundle_url e) (BASE_URL @ ''/bundle/'' @ mk @ ''/'' @ str_int year @ ''/'')"
    using startswith_bundle by simp
  from p show "\<exists>body. http w (sent st) (listing_url mk year) = Response 200 body"
    by (auto simp: probe_year_fst split: response.splits if_splits)
qed

lemma emitted_absent: "fst (probe_year w mk year st) = None \<Longrightarrow> emitted w mk year st = []"
  by (simp add: emitted_eq)

text \<open>Where every entry of the scan comes from: a make and a year of the configuration whose
  probe was answered with status 200 earlier in the same run.\<close>

lemma scan_provenance:
  "\<forall>e \<in> set (manifest (make_loop w makes (init_state fs))).
     \<exists>mk \<in> set makes. \<exists>year. YEAR_START \<le> year \<and> year \<le> YEAR_END
       \<and> e_make e = unquote mk \<and> e_year e = str_int year
       \<and> startswith (e_bundle_url e) (BASE_URL @ ''/bundle/'' @ mk @ ''/'' @ str_int year @ ''/'')
       \<and> (\<exists>body. HttpGet (listing_url mk year) 10 (Response 200 body)
                    \<in> set (trace (make_loop w makes (init_state fs))))"
  (is "?P (make_loop w makes (init_state fs))")
proof (rule scan_inv [where P = ?P])
  show "?P (init_state fs)" by (simp add: init_state_def)
next
  fix ev and s :: state
  assume "?P s"
  then show "?P (emit ev s)" by fastforce
next
  fix m y and s :: state
  assume m: "m \<in> set makes" and y: "YEAR_START \<le> y" "y \<le> YEAR_END" and s: "?P s"
  show "?P (year_body w m y s)"
  proof
    fix e assume "e \<in> set (manifest (year_body w m y s))"
    then consider "e \<in> set (manifest s)" | "e \<in> set (emitted w m y s)"
      by (auto simp: year_body_emitted)
    then show "\<exists>mk \<in> set makes. \<exists>year. YEAR_START \<le> year \<and> year \<le> YEAR_END
       \<and> e_make e = unquote mk \<and> e_year e = str_int year
       \<and> startswith (e_bundle_url e) (BASE_URL @ ''/bundle/'' @ mk @ ''/'' @ str_int year @ ''/'')
       \<and> (\<exists>body. HttpGet (listing_url mk year) 10 (Response 200 body)
                    \<in> set (trace (year_body w m y s)))"
    proof cases
      case 1
      with s obtain mk year body where
        "mk \<in> set makes" "YEAR_START \<le> year" "year \<le> YEAR_END"
        "e_make e = unquote mk" "e_year e = str_int year"
        "startswith (e_bundle_url e) (BASE_URL @ ''/bundle/'' @ mk @ ''/'' @ str_int year @ ''/'')"
        "HttpGet (listing_url mk year) 10 (Response 200 body) \<in> set (trace s)"
        by blast
      moreover have "set (trace s) \<subseteq> set (trace (year_body w m y s))"
        using year_body_trace_prefix by (rule set_mono_prefix)
      ultimately show ?thesis by blast
    next
      case 2
      from emitted_origin(4) [OF 2] obtain body where
        "http w (sent s) (listing_url m y) = Response 200 body" ..
      then have "HttpGet (listing_url m y) 10 (Response 200 body) \<in> set (trace (year_body w m y s))"
        by (simp add: year_body_trace)
      with emitted_origin(1-3) [OF 2] m y show ?thesis by blast
    qed
  qed
qed

lemma build_manifest:
  "manifest (build_and_write_manifest w fs) = manifest (make_loop w MAKES (init_state fs))"
  by (simp add: build_and_write_manifest_def Let_def unlink_missing_ok_def write_file_def)

lemma build_trace:
  "trace (build_and_write_manifest w fs) =
     trace (make_loop w MAKES (init_state fs)) @
       [Unlink OUTPUT_CSV,
        WriteFile OUTPUT_CSV (writeheader @ writerows (manifest (make_loop w MAKES (init_state fs)))),
        LogWrote (length (manifest (make_loop w MAKES (init_state fs)))) OUTPUT_CSV]"
  by (simp add: build_and_write_manifest_def Let_def unlink_missing_ok_def write_file_def)

lemma build_files:
  "files (build_and_write_manifest w fs) =
     fs(OUTPUT_CSV \<mapsto> writeheader @ writerows (manifest (make_loop w MAKES (init_state fs))))"
  by (simp add: build_and_write_manifest_def Let_def unlink_missing_ok_def write_file_def
      init_state_def)

lemma emitted_explicit:
  "emitted w mk year st =
     (case http w (sent st) (listing_url mk year) of
        Failure f \<Rightarrow> []
      | Response code body \<Rightarrow>
          if code = 200 then
            map (\<lambda>(model, bundle_url). \<lparr>e_make = unquote mk, e_model = model,
                   e_year = str_int year, e_bundle_url = bundle_url\<rparr>)
              (case http w (Suc (sent st)) (listing_url mk year) of
                 Failure f \<Rightarrow> []
               | Response code' text \<Rightarrow>
                   (case raise_for_status code' of
                      Some e \<Rightarrow> []
                    | None \<Rightarrow> anchors_loop (''/'' @ mk @ ''/'' @ str_int year @ ''/'')
                               (select_a_href w text) []))
          else [])"
  by (simp add: emitted_eq probe_year_fst probe_year_snd get_models_fst split: response.split)

text \<open>A server whose answers do not depend on the moment of the request: what a page
  contributes is the same wherever in the run it is visited, and it reaches the manifest.\<close>

lemma emitted_stateless:
  assumes "\<forall>n u. http w n u = http w 0 u"
  shows "emitted w mk year st = emitted w mk year st'"
proof -
  have a: "http w (sent st) u = http w (sent st') u" 
    and b: "http w (Suc (sent st)) u = http w (Suc (sent st')) u" for u
    using assms by metis+
  show ?thesis unfolding emitted_explicit a b by (rule refl)
qed

lemma year_loop_manifest_mono: "set (manifest st) \<subseteq> set (manifest (year_loop w mk years st))"
  by (rule year_loop_inv [where P = "\<lambda>s. set (manifest st) \<subseteq> set (manifest s)"])
    (auto simp: year_body_emitted)

lemma make_body_manifest_mono: "set (manifest st) \<subseteq> set (manifest (make_body w mk st))"
  unfolding make_body_def
  by (rule order_trans [OF _ year_loop_manifest_mono]) simp

lemma make_loop_manifest_mono: "set (manifest st) \<subseteq> set (manifest (make_loop w makes st))"
proof (rule make_loop_inv [where P = "\<lambda>s. set (manifest st) \<subseteq> set (manifest s)"])
  show "set (manifest st) \<subseteq> set (manifest st)" by simp
next
  fix m and s :: state
  assume "set (manifest st) \<subseteq> set (manifest s)"
  then show "set (manifest st) \<subseteq> set (manifest (make_body w m s))"
    using make_body_manifest_mono by (rule order_trans)
qed

lemma year_loop_contains:
  assumes "\<forall>n u. http w n u = http w 0 u" and "year \<in> set years"
  shows "set (emitted w mk year st0) \<subseteq> set (manifest (year_loop w mk years st))"
  using assms(2)
proof (induction years arbitrary: st)
  case Nil
  then show ?case by simp
next
  case (Cons y ys)
  show ?case
  proof (cases "year = y")
    case True
    have "set (emitted w mk year st0) \<subseteq> set (manifest (year_body w mk y st))"
      using emitted_stateless [OF assms(1), of mk y st0 st] True
      by (simp add: year_body_emitted)
    also have "\<dots> \<subseteq> set (manifest (year_loop w mk ys (year_body w mk y st)))"
      by (rule year_loop_manifest_mono)
    finally show ?thesis by simp
  next
    case False
    with Cons show ?thesis by simp
  qed
qed

lemma make_loop_contains:
  assumes "\<forall>n u. http w n u = http w 0 u" and "mk \<in> set makes"
    and "YEAR_START \<le> year" and "year \<le> YEAR_END"
  shows "set (emitted w mk year st0) \<subseteq> set (manifest (make_loop w makes st))"
  using assms(2)
proof (induction makes arbitrary: st)
  case Nil
  then show ?case by simp
next
  case (Cons m ms)
  show ?case
  proof (cases "mk = m")
    case True
    have "set (emitted w mk year st0) \<subseteq> set (manifest (make_body w m st))"
      unfolding make_body_def True [symmetric]
      by (rule year_loop_contains [OF assms(1)]) (use assms(3,4) in simp)
    also have "\<dots> \<subseteq> set (manifest (make_loop w ms (make_body w m st)))"
      by (rule make_loop_manifest_mono)
    finally show ?thesis by simp
  next
    case False
    with Cons show ?thesis by simp
  qed
qed

lemma build_contains:
  assumes "\<forall>n u. http w n u = http w 0 u" and "mk \<in> set MAKES"
    and "YEAR_START \<le> year" and "year \<le> YEAR_END"
  shows "set (emitted w mk year st0) \<subseteq> set (manifest (build_and_write_manifest w fs))"
  unfolding build_manifest using assms by (rule make_loop_contains)

lemma emitted_toyota_2006:
  "emitted toyota_world ''Toyota'' 2006 (init_state Map.empty) = [camry_entry]"
  by (simp add: emitted_explicit toyota_world_def raise_for_status_def camry_anchor_def
      bundle_anchor_def py_strip_def py_isspace_def startswith_def endswith_def str_int_2006
      get_text_strip_def BASE_URL_def hex_val_def camry_entry_def)

lemma camry_entry_in_run:
  "camry_entry \<in> set (manifest (build_and_write_manifest toyota_world Map.empty))"
proof -
  have "\<forall>n u. http toyota_world n u = http toyota_world 0 u"
    by (simp add: toyota_world_def)
  moreover have "''Toyota'' \<in> set MAKES" by (simp add: MAKES_def)
  moreover have "YEAR_START \<le> 2006" "2006 \<le> YEAR_END"
    by (simp_all add: YEAR_START_def YEAR_END_def)
  ultimately have "set (emitted toyota_world ''Toyota'' 2006 (init_state Map.empty))
      \<subseteq> set (manifest (build_and_write_manifest toyota_world Map.empty))"
    by (rule build_contains)
  then show ?thesis by (simp add: emitted_toyota_2006)
qed

lemma startswith_shorter: "startswith s (p @ q) \<Longrightarrow> startswith s p"
  by (auto simp: startswith_iff)

lemma str_nat_digits: "set (str_nat n) \<subseteq> set ''0123456789''"
proof (induction n rule: str_nat.induct)
  case (1 n)
  have d: "digit_char k \<in> set ''0123456789''" if "k < 10" for k
    unfolding digit_char_def by (rule nth_mem) (use that in simp)
  show ?case
  proof (cases "n < 10")
    case True
    with d [of n] show ?thesis by (subst str_nat.simps) simp
  next
    case False
    with 1 d [of "n mod 10"] show ?thesis by (subst str_nat.simps) simp
  qed
qed

lemma str_int_no_space: "CHR '' '' \<notin> set (str_int i)"
  using str_nat_digits [of "nat i"] str_nat_digits [of "nat (- i)"]
  by (auto simp: str_int_def)

lemma makes_no_space: "mk \<in> set MAKES \<Longrightarrow> CHR '' '' \<notin> set mk"
  by (auto simp: MAKES_def)

lemma str_int_1980: "str_int 1980 = ''1980''"
  by (simp add: str_int_def str_nat.simps digit_char_def)

lemma unquote_dodge: "unquote ''Dodge%20and%20Ram'' = ''Dodge and Ram''"
  by (simp add: hex_val_def char_of_def bit_iff_odd)

lemma emitted_dodge_1980:
  "emitted dodge_world ''Dodge%20and%20Ram'' 1980 (init_state Map.empty) =
     [ram50_entry, ramcharger_entry]"
  by (simp add: emitted_explicit dodge_world_def raise_for_status_def py_strip_def
      py_isspace_def startswith_def endswith_def str_int_1980 get_text_strip_def BASE_URL_def
      hex_val_def char_of_def bit_iff_odd ram50_entry_def ramcharger_entry_def)

lemma dodge_entries_in_run:
  "set [ram50_entry, ramcharger_entry]
     \<subseteq> set (manifest (build_and_write_manifest dodge_world Map.empty))"
proof -
  have "\<forall>n u. http dodge_world n u = http dodge_world 0 u"
    by (simp add: dodge_world_def)
  moreover have "''Dodge%20and%20Ram'' \<in> set MAKES" by (simp add: MAKES_def)
  moreover have "YEAR_START \<le> 1980" "1980 \<le> YEAR_END"
    by (simp_all add: YEAR_START_def YEAR_END_def)
  ultimately have "set (emitted dodge_world ''Dodge%20and%20Ram'' 1980 (init_state Map.empty))
      \<subseteq> set (manifest (build_and_write_manifest dodge_world Map.empty))"
    by (rule build_contains)
  then show ?thesis by (simp only: emitted_dodge_1980)
qed

lemma count_lines_append [simp]: "count_lines (a @ b) = count_lines a + count_lines b"
  by (simp add: count_lines_def)

lemma count_lines_Nil [simp]: "count_lines [] = 0"
  by (simp add: count_lines_def)

lemma count_lines_Cons: "count_lines (c # s) = (if c = LF then 1 else 0) + count_lines s"
  by (simp add: count_lines_def)

lemma LF_distinct [simp]: "DQUOTE \<noteq> LF" "CR \<noteq> LF" "CHR '','' \<noteq> LF"
  by (simp_all add: DQUOTE_def CR_def LF_def)

lemma count_lines_doubled:
  "count_lines (concat (map (\<lambda>c. if c = DQUOTE then [DQUOTE, DQUOTE] else [c]) s)) = count_lines s"
  by (induction s) (simp_all add: count_lines_Cons)

lemma count_lines_csv_field [simp]: "count_lines (csv_field s) = count_lines s"
  by (simp add: csv_field_def count_lines_doubled count_lines_Cons)

lemma count_lines_join_comma:
  "count_lines (join_comma fs) = sum_list (map count_lines fs)"
  by (induction fs rule: join_comma.induct) (simp_all add: count_lines_Cons)

lemma count_lines_writerow:
  "count_lines (writerow row) = Suc (sum_list (map count_lines row))"
  by (simp add: writerow_def count_lines_join_comma count_lines_Cons comp_def)

lemma count_lines_writerows:
  "count_lines (writerows m) =
     length m + (\<Sum>e\<leftarrow>m. count_lines (e_make e) + count_lines (e_model e)
                          + count_lines (e_year e) + count_lines (e_bundle_url e))"
  by (induction m) (simp_all add: writerows_def count_lines_writerow dict_row_def)

lemma writeheader_eq: "writeheader = ''make,model,year,bundle_url'' @ [CR, LF]"
  by (simp add: writeheader_def writerow_def keys_def csv_field_def csv_must_quote_def
      DQUOTE_def CR_def LF_def)

lemma count_lines_0: "LF \<notin> set s \<Longrightarrow> count_lines s = 0"
  by (induction s) (auto simp: count_lines_Cons)

lemma str_int_no_LF: "LF \<notin> set (str_int i)"
  using str_nat_digits [of "nat i"] str_nat_digits [of "nat (- i)"]
  by (auto simp: str_int_def LF_def)

lemma makes_decoded_no_LF: "mk \<in> set MAKES \<Longrightarrow> LF \<notin> set (unquote mk)"
  by (auto simp: MAKES_def LF_def hex_val_def char_of_def bit_iff_odd)

text \<open>Once the server is unreachable for good, the scan adds nothing.\<close>

lemma year_body_after_outage:
  assumes "\<forall>n u. k \<le> n \<longrightarrow> (\<exists>f. http w n u = Failure f)" and "k \<le> sent st"
  shows "manifest (year_body w mk y st) = manifest st \<and> k \<le> sent (year_body w mk y st)"
proof -
  from assms obtain f where "http w (sent st) (listing_url mk y) = Failure f" by blast
  then have "emitted w mk y st = []" by (simp add: emitted_explicit)
  moreover have "k \<le> sent (year_body w mk y st)"
    using assms(2) year_body_sent_le [of st w mk y] by simp
  ultimately show ?thesis by (simp add: year_body_emitted)
qed

lemma year_loop_after_outage:
  assumes "\<forall>n u. k \<le> n \<longrightarrow> (\<exists>f. http w n u = Failure f)" and "k \<le> sent st"
  shows "manifest (year_loop w mk years st) = manifest st \<and> k \<le> sent (year_loop w mk years st)"
proof (rule year_loop_inv [where P = "\<lambda>s. manifest s = manifest st \<and> k \<le> sent s"])
  show "manifest st = manifest st \<and> k \<le> sent st" using assms(2) by simp
next
  fix y and s :: state
  assume "manifest s = manifest st \<and> k \<le> sent s"
  then show "manifest (year_body w mk y s) = manifest st \<and> k \<le> sent (year_body w mk y s)"
    using year_body_after_outage [OF assms(1), of s mk y] by simp
qed

lemma make_loop_after_outage:
  assumes "\<forall>n u. k \<le> n \<longrightarrow> (\<exists>f. http w n u = Failure f)" and "k \<le> sent st"
  shows "manifest (make_loop w makes st) = manifest st \<and> k \<le> sent (make_loop w makes st)"
proof (rule scan_inv [where P = "\<lambda>s. manifest s = manifest st \<and> k \<le> sent s"])
  show "manifest st = manifest st \<and> k \<le> sent st" using assms(2) by simp
next
  fix ev and s :: state
  assume "manifest s = manifest st \<and> k \<le> sent s"
  then show "manifest (emit ev s) = manifest st \<and> k \<le> sent (emit ev s)" by simp
next
  fix m y and s :: state
  assume "manifest s = manifest st \<and> k \<le> sent s"
  then show "manifest (year_body w m y s) = manifest st \<and> k \<le> sent (year_body w m y s)"
    using year_body_after_outage [OF assms(1), of s m y] by simp
qed

lemma years_unfold: "[YEAR_START..YEAR_END] = 1980 # 1981 # [1982..2024]"
  by (simp add: YEAR_START_def YEAR_END_def upto_rec1)

lemma makes_unfold: "MAKES = ''Acura'' # tl MAKES"
  by (simp add: MAKES_def)

text \<open>A run in which only the first two requests are answered has the entries of the first
  page, Acura 1980, and no other.\<close>

lemma first_page_only:
  assumes up: "http w 0 (listing_url ''Acura'' 1980) = Response 200 body"
    and dead: "\<forall>n u. 2 \<le> n \<longrightarrow> (\<exists>f. http w n u = Failure f)"
  shows "manifest (build_and_write_manifest w fs) = emitted w ''Acura'' 1980 (init_state fs)"
proof -
  define st1 where "st1 = emit (Sleep THROTTLE) (emit (LogChecking ''Acura'') (init_state fs))"
  define st2 where "st2 = year_body w ''Acura'' 1980 st1"
  have s1: "sent st1 = 0" "manifest st1 = []" "sent (init_state fs) = 0"
    by (simp_all add: st1_def init_state_def)
  have e: "emitted w ''Acura'' 1980 st1 = emitted w ''Acura'' 1980 (init_state fs)"
    unfolding emitted_explicit s1 by (rule refl)
  have m2: "manifest st2 = emitted w ''Acura'' 1980 (init_state fs)"
    by (simp add: st2_def year_body_emitted s1 e)
  have "fst (probe_year w ''Acura'' 1980 st1) = Some (listing_url ''Acura'' 1980)"
    using up by (simp add: probe_year_fst s1)
  then have k2: "2 \<le> sent st2"
    by (simp add: st2_def year_body_sent s1)
  have "make_body w ''Acura'' (init_state fs) = year_loop w ''Acura'' (1981 # [1982..2024]) st2"
    by (simp add: make_body_def years_unfold st1_def st2_def)
  with year_loop_after_outage [OF dead k2, of "''Acura''" "1981 # [1982..2024]"]
  have 3: "manifest (make_body w ''Acura'' (init_state fs)) = manifest st2"
    and k3: "2 \<le> sent (make_body w ''Acura'' (init_state fs))"
    by simp_all
  have "make_loop w MAKES (init_state fs) =
      make_loop w (tl MAKES) (make_body w ''Acura'' (init_state fs))"
    by (subst makes_unfold) simp
  with make_loop_after_outage [OF dead k3, of "tl MAKES"] 3 m2
  show ?thesis by (simp add: build_manifest)
qed

lemma newline_run_manifest:
  "manifest (build_and_write_manifest newline_world fs) = [integra_entry]"
proof -
  have "manifest (build_and_write_manifest newline_world fs) =
      emitted newline_world ''Acura'' 1980 (init_state fs)"
    by (rule first_page_only [where body = "''page''"]) (simp_all add: newline_world_def)
  also have "\<dots> = [integra_entry]"
    by (simp add: emitted_explicit newline_world_def init_state_def raise_for_status_def
        py_strip_def py_isspace_def startswith_def endswith_def str_int_1980 get_text_strip_def
        BASE_URL_def hex_val_def LF_def integra_entry_def)
  finally show ?thesis .
qed

lemma acura_run_manifest:
  "manifest (build_and_write_manifest acura_world fs) = [integra_ls_entry]"
proof -
  have "manifest (build_and_write_manifest acura_world fs) =
      emitted acura_world ''Acura'' 1980 (init_state fs)"
    by (rule first_page_only [where body = "''page''"]) (simp_all add: acura_world_def)
  also have "\<dots> = [integra_ls_entry]"
    by (simp add: emitted_explicit acura_world_def init_state_def raise_for_status_def
        py_strip_def py_isspace_def startswith_def endswith_def str_int_1980 get_text_strip_def
        BASE_URL_def hex_val_def integra_ls_entry_def)
  finally show ?thesis .
qed

lemma throttled_prefix: "throttled slept (xs @ ys) \<Longrightarrow> throttled slept xs"
proof (induction xs arbitrary: slept)
  case Nil
  then show ?case by simp
next
  case (Cons ev xs)
  then show ?case by (cases ev) auto
qed

lemma year_loop_unreachable_trace:
  assumes "\<forall>n u. http w n u = Failure f"
  shows "trace (year_loop w mk years st) =
           trace st @ map (\<lambda>year. HttpGet (listing_url mk year) 10 (Failure f)) years"
proof (induction years arbitrary: st)
  case Nil
  then show ?case by simp
next
  case (Cons y ys)
  have "trace (year_body w mk y st) = trace st @ [HttpGet (listing_url mk y) 10 (Failure f)]"
    using assms by (simp add: year_body_trace probe_year_fst)
  with Cons show ?case by simp
qed

lemma make_loop_unreachable_trace:
  assumes "\<forall>n u. http w n u = Failure f"
  shows "trace (make_loop w makes st) =
           trace st @ concat (map (\<lambda>mk. LogChecking mk # Sleep THROTTLE #
             map (\<lambda>year. HttpGet (listing_url mk year) 10 (Failure f)) [YEAR_START..YEAR_END]) makes)"
proof (induction makes arbitrary: st)
  case Nil
  then show ?case by simp
next
  case (Cons m ms)
  have "trace (make_body w m st) = trace st @ LogChecking m # Sleep THROTTLE #
      map (\<lambda>year. HttpGet (listing_url m year) 10 (Failure f)) [YEAR_START..YEAR_END]"
    by (simp add: make_body_def year_loop_unreachable_trace [OF assms])
  with Cons show ?case by simp
qed

lemma str_int_1981: "str_int 1981 = ''1981''"
  by (simp add: str_int_def str_nat.simps digit_char_def)

lemma get_text_strip_one_node:
  "length (strings a) \<le> 1 \<Longrightarrow> get_text_strip a = stripped_link_text a"
proof (cases "strings a")
  case Nil
  then show ?thesis
    by (simp add: get_text_strip_def stripped_link_text_def py_strip_def)
next
  case (Cons t ts)
  assume "length (strings a) \<le> 1"
  with Cons have "strings a = [t]" by simp
  then show ?thesis
    by (simp add: get_text_strip_def stripped_link_text_def)
qed

lemma unquote_length: "length (unquote s) \<le> length s"
proof (induction s rule: unquote.induct)
  case (1 c h1 h2 rest)
  show ?case
  proof (cases "c = CHR ''%''")
    case False
    with 1 show ?thesis by simp
  next
    case True
    show ?thesis
    proof (cases "hex_val h1")
      case None
      with 1 True show ?thesis by simp
    next
      case a: (Some x)
      show ?thesis
      proof (cases "hex_val h2")
        case None
        with 1 True a show ?thesis by simp
      next
        case b: (Some y)
        from 1 True a b have "length (unquote rest) \<le> length rest" by simp
        with True a b show ?thesis by simp
      qed
    qed
  qed
qed simp_all

text \<open>A string that holds a character which the front of a text does not hold, and that is
  not longer than the second part of that front, can only occur from the second part on.\<close>

lemma sublist_past_front:
  assumes sub: "sublist m (P @ H @ rest)" and c: "c \<in> set m"
    and P: "c \<notin> set P" and H: "c \<notin> set H" and len: "length m \<le> length H"
  shows "sublist m (H @ rest)"
proof -
  from sub obtain ps ss where "P @ (H @ rest) = ps @ (m @ ss)"
    unfolding sublist_def by blast
  then have "\<exists>us. P = ps @ us \<and> us @ (H @ rest) = m @ ss
      \<or> P @ us = ps \<and> H @ rest = us @ (m @ ss)"
    by (rule iffD1 [OF append_eq_append_conv2])
  then consider us where "P = ps @ us" "us @ H @ rest = m @ ss"
    | us where "P @ us = ps" "H @ rest = us @ m @ ss"
    by blast
  then show ?thesis
  proof cases
    case 1
    have "m = take (length m) (m @ ss)" by simp
    also have "\<dots> = take (length m) ((us @ H) @ rest)" using 1(2) by simp
    also have "\<dots> = take (length m) (us @ H)" using len by simp
    finally have "set m \<subseteq> set (us @ H)" by (metis set_take_subset)
    with c P H 1(1) show ?thesis by auto
  next
    case 2
    then show ?thesis unfolding sublist_def by blast
  qed
qed

lemma emitted_link:
  assumes "e \<in> set (emitted w mk year st)"
  shows "\<exists>page. \<exists>a \<in> set (select_a_href w page).
           e_make e = unquote mk
           \<and> e_bundle_url e = BASE_URL @ ''/bundle'' @ py_strip (attr_href a)
           \<and> startswith (py_strip (attr_href a)) (''/'' @ mk @ ''/'' @ str_int year @ ''/'')"
proof -
  from assms obtain u where p: "fst (probe_year w mk year st) = Some u"
    by (cases "fst (probe_year w mk year st)") (simp_all add: emitted_eq)
  with assms obtain model burl where
    e: "e = \<lparr>e_make = unquote mk, e_model = model, e_year = str_int year, e_bundle_url = burl\<rparr>"
    and m: "(model, burl) \<in> set (fst (get_models_for_year w mk year u
              (emit (LogFound mk year) (snd (probe_year w mk year st)))))"
    by (auto simp: emitted_eq)
  from get_models_entries [OF m] e show ?thesis by auto
qed

text \<open>Every entry of the scan was made from a link of some fetched page, for a configured
  make.\<close>

lemma scan_link_provenance:
  "\<forall>e \<in> set (manifest (make_loop w makes (init_state fs))).
     \<exists>mk \<in> set makes. \<exists>year page. \<exists>a \<in> set (select_a_href w page).
       e_make e = unquote mk
       \<and> e_bundle_url e = BASE_URL @ ''/bundle'' @ py_strip (attr_href a)
       \<and> startswith (py_strip (attr_href a)) (''/'' @ mk @ ''/'' @ str_int year @ ''/'')"
  (is "?P (make_loop w makes (init_state fs))")
proof (rule scan_inv [where P = ?P])
  show "?P (init_state fs)" by (simp add: init_state_def)
next
  fix ev and s :: state
  assume "?P s"
  then show "?P (emit ev s)" by simp
next
  fix m y and s :: state
  assume m: "m \<in> set makes" and s: "?P s"
  show "?P (year_body w m y s)"
  proof
    fix e assume "e \<in> set (manifest (year_body w m y s))"
    then consider "e \<in> set (manifest s)" | "e \<in> set (emitted w m y s)"
      by (auto simp: year_body_emitted)
    then show "\<exists>mk \<in> set makes. \<exists>year page. \<exists>a \<in> set (select_a_href w page).
       e_make e = unquote mk
       \<and> e_bundle_url e = BASE_URL @ ''/bundle'' @ py_strip (attr_href a)
       \<and> startswith (py_strip (attr_href a)) (''/'' @ mk @ ''/'' @ str_int year @ ''/'')"
    proof cases
      case 1
      with s show ?thesis by blast
    next
      case 2
      from emitted_link [OF 2] m show ?thesis by blast
    qed
  qed
qed

text \<open>The decoded name of a configured make with a space occurs in a \<open>bundle_url\<close> only
  where the \<open>href\<close> of the link has it.\<close>

lemma make_only_in_href:
  assumes mk: "mk \<in> set MAKES" and sp: "CHR '' '' \<in> set (unquote mk)"
    and href: "startswith href (''/'' @ mk @ ''/'' @ str_int year @ ''/'')"
  shows "sublist (unquote mk) (BASE_URL @ ''/bundle'' @ href) \<longleftrightarrow> sublist (unquote mk) href"
proof
  assume "sublist (unquote mk) href"
  then obtain ps ss where "href = ps @ unquote mk @ ss"
    unfolding sublist_def by blast
  then have "BASE_URL @ ''/bundle'' @ href = (BASE_URL @ ''/bundle'' @ ps) @ unquote mk @ ss"
    by simp
  then show "sublist (unquote mk) (BASE_URL @ ''/bundle'' @ href)"
    by (simp only: sublist_appendI)
next
  let ?H = "''/'' @ mk @ ''/'' @ str_int year @ ''/''"
  assume sub: "sublist (unquote mk) (BASE_URL @ ''/bundle'' @ href)"
  from href obtain rest where h: "href = ?H @ rest"
    unfolding startswith_iff ..
  have 1: "sublist (unquote mk) ((BASE_URL @ ''/bundle'') @ ?H @ rest)"
    using sub h by simp
  have 2: "CHR '' '' \<notin> set (BASE_URL @ ''/bundle'')"
    by (simp add: BASE_URL_def)
  have 3: "CHR '' '' \<notin> set ?H"
    using makes_no_space [OF mk] str_int_no_space [of year] by simp
  have 4: "length (unquote mk) \<le> length ?H"
    using unquote_length [of mk] by simp
  from 1 sp 2 3 4 have "sublist (unquote mk) (?H @ rest)"
    by (rule sublist_past_front)
  then show "sublist (unquote mk) href" by (simp only: h)
qed

section \<open>Properties\<close>

text \<open>
  C4. The probe returns the listing URL it built when the server answers with status 200,
  and nothing for every other status and for every request that fails (timeout, connection
  error, DNS failure or any other request exception).
\<close>

theorem probe_year_present_or_absent:
  "(\<forall>body. http w (sent st) (listing_url mk year) = Response 200 body
      \<longrightarrow> fst (probe_year w mk year st) = Some (listing_url mk year))
   \<and> (\<forall>code body. http w (sent st) (listing_url mk year) = Response code body \<and> code \<noteq> 200
      \<longrightarrow> fst (probe_year w mk year st) = None)
   \<and> (\<forall>f. http w (sent st) (listing_url mk year) = Failure f
      \<longrightarrow> fst (probe_year w mk year st) = None)"
  by (simp add: probe_year_fst)

theorem probe_year_present_or_absent_witness:
  "fst (probe_year up_world ''Toyota'' 2006 (init_state Map.empty)) = Some ''https://charm.li/Toyota/2006/''
   \<and> fst (probe_year gone_world ''Saab'' 1985 (init_state Map.empty)) = None
   \<and> fst (probe_year dead_world ''Saab'' 1985 (init_state Map.empty)) = None"
proof -
  have up: "http up_world (sent (init_state Map.empty)) (listing_url ''Toyota'' 2006) = Response 200 ''page''"
    by (simp add: up_world_def)
  have gone: "http gone_world (sent (init_state Map.empty)) (listing_url ''Saab'' 1985) = Response 404 ''not found'' \<and> (404::nat) \<noteq> 200"
    by (simp add: gone_world_def)
  have dead: "http dead_world (sent (init_state Map.empty)) (listing_url ''Saab'' 1985) = Failure ConnectionError"
    by (simp add: dead_world_def)
  have url: "listing_url ''Toyota'' 2006 = ''https://charm.li/Toyota/2006/''"
    by (simp add: BASE_URL_def str_int_def str_nat.simps digit_char_def)
  from probe_year_present_or_absent [of up_world "init_state Map.empty" "''Toyota''" 2006] up url
  have 1: "fst (probe_year up_world ''Toyota'' 2006 (init_state Map.empty)) = Some ''https://charm.li/Toyota/2006/''"
    by simp
  from probe_year_present_or_absent [of gone_world "init_state Map.empty" "''Saab''" 1985] gone
  have 2: "fst (probe_year gone_world ''Saab'' 1985 (init_state Map.empty)) = None"
    by blast
  from probe_year_present_or_absent [of dead_world "init_state Map.empty" "''Saab''" 1985] dead
  have 3: "fst (probe_year dead_world ''Saab'' 1985 (init_state Map.empty)) = None"
    by blast
  from 1 2 3 show ?thesis by simp
qed

text \<open>
  C9. The pairs that the scraper extracts depend on the markup, the make and the year only:
  two runs that receive the same markup, under the same parser, return the same ordered
  sequence, whatever the server, the moment of the run, the address fetched, the status
  (as long as it is accepted) and the rest of the state are.
\<close>

theorem scraper_deterministic:
  assumes "select_a_href w1 = select_a_href w2"
    and "http w1 (sent st1) url1 = Response code1 text"
    and "http w2 (sent st2) url2 = Response code2 text"
    and "\<not> (400 \<le> code1 \<and> code1 < 600)" and "\<not> (400 \<le> code2 \<and> code2 < 600)"
  shows "fst (get_models_for_year w1 mk year url1 st1) =
         fst (get_models_for_year w2 mk year url2 st2)"
proof -
  from assms(4,5) have "raise_for_status code1 = None" and "raise_for_status code2 = None"
    by (simp_all add: raise_for_status_def)
  with assms(1-3) show ?thesis
    by (simp add: get_models_fst)
qed

theorem scraper_deterministic_witness:
  "fst (get_models_for_year toyota_world ''Toyota'' 2006 ''https://charm.li/Toyota/2006/''
          (init_state Map.empty)) =
   fst (get_models_for_year mirror_world ''Toyota'' 2006 ''https://mirror.example/t/''
          \<lparr>manifest = [], trace = [Sleep 300], sent = 7, files = Map.empty\<rparr>)"
proof -
  have s: "select_a_href toyota_world = select_a_href mirror_world"
    by (simp add: toyota_world_def mirror_world_def)
  have r1: "http toyota_world (sent (init_state Map.empty)) ''https://charm.li/Toyota/2006/'' =
      Response 200 ''page''"
    by (simp add: toyota_world_def)
  have r2: "http mirror_world (sent \<lparr>manifest = [], trace = [Sleep 300], sent = 7, files = Map.empty\<rparr>)
      ''https://mirror.example/t/'' = Response 203 ''page''"
    by (simp add: mirror_world_def)
  have ok1: "\<not> (400 \<le> (200::nat) \<and> (200::nat) < 600)" by simp
  have ok2: "\<not> (400 \<le> (203::nat) \<and> (203::nat) < 600)" by simp
  show ?thesis
    by (rule scraper_deterministic [OF s r1 r2 ok1 ok2])
qed

text \<open>
  C2. Every entry that the iteration for a make and a year appends (there is none unless
  the probe found the page) has a \<open>bundle_url\<close> that starts with
  base URL + \<open>/bundle/\<close> + make + \<open>/\<close> + year + \<open>/\<close>; so every entry of a finished run has
  that prefix for the configured make and the year in range that its own \<open>make\<close> and
  \<open>year\<close> fields name.
\<close>

theorem bundle_url_has_pair_prefix:
  "(\<forall>e \<in> set (emitted w mk year st).
      fst (probe_year w mk year st) = Some (listing_url mk year)
      \<and> startswith (e_bundle_url e) (BASE_URL @ ''/bundle/'' @ mk @ ''/'' @ str_int year @ ''/''))
   \<and> (\<forall>e \<in> set (manifest (build_and_write_manifest w fs)).
        \<exists>mk \<in> set MAKES. \<exists>year. YEAR_START \<le> year \<and> year \<le> YEAR_END
          \<and> e_make e = unquote mk \<and> e_year e = str_int year
          \<and> startswith (e_bundle_url e) (BASE_URL @ ''/bundle/'' @ mk @ ''/'' @ str_int year @ ''/''))"
proof (intro conjI ballI)
  fix e assume e: "e \<in> set (emitted w mk year st)"
  from emitted_origin(4) [OF e]
  show "fst (probe_year w mk year st) = Some (listing_url mk year)"
    by (auto simp: probe_year_fst)
  from emitted_origin(3) [OF e]
  show "startswith (e_bundle_url e) (BASE_URL @ ''/bundle/'' @ mk @ ''/'' @ str_int year @ ''/'')" .
next
  fix e assume "e \<in> set (manifest (build_and_write_manifest w fs))"
  then have "e \<in> set (manifest (make_loop w MAKES (init_state fs)))"
    by (simp add: build_manifest)
  with scan_provenance [of w MAKES fs]
  show "\<exists>mk \<in> set MAKES. \<exists>year. YEAR_START \<le> year \<and> year \<le> YEAR_END
          \<and> e_make e = unquote mk \<and> e_year e = str_int year
          \<and> startswith (e_bundle_url e) (BASE_URL @ ''/bundle/'' @ mk @ ''/'' @ str_int year @ ''/'')"
    by blast
qed

theorem bundle_url_has_pair_prefix_witness:
  "emitted toyota_world ''Toyota'' 2006 (init_state Map.empty) = [camry_entry]
   \<and> startswith (e_bundle_url camry_entry) ''https://charm.li/bundle/Toyota/2006/''
   \<and> camry_entry \<in> set (manifest (build_and_write_manifest toyota_world Map.empty))
   \<and> (\<exists>mk \<in> set MAKES. \<exists>year. YEAR_START \<le> year \<and> year \<le> YEAR_END
          \<and> e_make camry_entry = unquote mk \<and> e_year camry_entry = str_int year
          \<and> startswith (e_bundle_url camry_entry)
               (BASE_URL @ ''/bundle/'' @ mk @ ''/'' @ str_int year @ ''/''))"
proof -
  note inst = bundle_url_has_pair_prefix [of toyota_world "''Toyota''" 2006 "init_state Map.empty" Map.empty]
  have mem: "camry_entry \<in> set (emitted toyota_world ''Toyota'' 2006 (init_state Map.empty))"
    by (simp add: emitted_toyota_2006)
  have pfx: "BASE_URL @ ''/bundle/'' @ ''Toyota'' @ ''/'' @ str_int 2006 @ ''/'' =
      ''https://charm.li/bundle/Toyota/2006/''"
    by (simp add: BASE_URL_def str_int_2006)
  from inst mem have "startswith (e_bundle_url camry_entry)
      (BASE_URL @ ''/bundle/'' @ ''Toyota'' @ ''/'' @ str_int 2006 @ ''/'')"
    by blast
  then have 1: "startswith (e_bundle_url camry_entry) ''https://charm.li/bundle/Toyota/2006/''"
    unfolding pfx .
  from inst camry_entry_in_run
  have 2: "\<exists>mk \<in> set MAKES. \<exists>year. YEAR_START \<le> year \<and> year \<le> YEAR_END
          \<and> e_make camry_entry = unquote mk \<and> e_year camry_entry = str_int year
          \<and> startswith (e_bundle_url camry_entry)
               (BASE_URL @ ''/bundle/'' @ mk @ ''/'' @ str_int year @ ''/'')"
    by blast
  from emitted_toyota_2006 1 camry_entry_in_run 2 show ?thesis by blast
qed

text \<open>
  C5. An iteration whose probe returns nothing leaves the manifest as it was; every entry
  that an iteration appends carries the decimal form of that iteration's year; and every
  entry of a finished run carries the decimal form of a year between \<open>YEAR_START\<close> and
  \<open>YEAR_END\<close> whose listing page, for a configured make, was probed with status 200 in
  that run.
\<close>

theorem entries_only_from_found_years:
  "(fst (probe_year w mk year st) = None \<longrightarrow> manifest (year_body w mk year st) = manifest st)
   \<and> (\<forall>e \<in> set (emitted w mk year st).
        e_year e = str_int year \<and> fst (probe_year w mk year st) \<noteq> None)
   \<and> (\<forall>e \<in> set (manifest (build_and_write_manifest w fs)).
        \<exists>mk \<in> set MAKES. \<exists>year. YEAR_START \<le> year \<and> year \<le> YEAR_END
          \<and> e_year e = str_int year
          \<and> (\<exists>body. HttpGet (listing_url mk year) 10 (Response 200 body)
                       \<in> set (trace (build_and_write_manifest w fs))))"
proof (intro conjI ballI impI)
  assume "fst (probe_year w mk year st) = None"
  then show "manifest (year_body w mk year st) = manifest st"
    by (simp add: year_body_emitted emitted_absent)
next
  fix e assume e: "e \<in> set (emitted w mk year st)"
  from emitted_origin(2) [OF e] show "e_year e = str_int year" .
  from emitted_origin(4) [OF e] show "fst (probe_year w mk year st) \<noteq> None"
    by (auto simp: probe_year_fst)
next
  fix e assume "e \<in> set (manifest (build_and_write_manifest w fs))"
  then have "e \<in> set (manifest (make_loop w MAKES (init_state fs)))"
    by (simp add: build_manifest)
  with scan_provenance [of w MAKES fs] obtain mk year body where
    "mk \<in> set MAKES" "YEAR_START \<le> year" "year \<le> YEAR_END" "e_year e = str_int year"
    "HttpGet (listing_url mk year) 10 (Response 200 body)
       \<in> set (trace (make_loop w MAKES (init_state fs)))"
    by blast
  then show "\<exists>mk \<in> set MAKES. \<exists>year. YEAR_START \<le> year \<and> year \<le> YEAR_END
          \<and> e_year e = str_int year
          \<and> (\<exists>body. HttpGet (listing_url mk year) 10 (Response 200 body)
                       \<in> set (trace (build_and_write_manifest w fs)))"
    by (auto simp: build_trace)
qed

theorem entries_only_from_found_years_witness:
  "manifest (year_body gone_world ''Saab'' 1985 (init_state Map.empty)) = []
   \<and> emitted toyota_world ''Toyota'' 2006 (init_state Map.empty) = [camry_entry]
   \<and> e_year camry_entry = ''2006''
   \<and> camry_entry \<in> set (manifest (build_and_write_manifest toyota_world Map.empty))
   \<and> (\<exists>mk \<in> set MAKES. \<exists>year. YEAR_START \<le> year \<and> year \<le> YEAR_END
          \<and> e_year camry_entry = str_int year
          \<and> (\<exists>body. HttpGet (listing_url mk year) 10 (Response 200 body)
                       \<in> set (trace (build_and_write_manifest toyota_world Map.empty))))"
proof -
  have absent: "fst (probe_year gone_world ''Saab'' 1985 (init_state Map.empty)) = None"
    by (simp add: probe_year_fst gone_world_def)
  from entries_only_from_found_years [of gone_world "''Saab''" 1985 "init_state Map.empty"] absent
  have 1: "manifest (year_body gone_world ''Saab'' 1985 (init_state Map.empty)) = []"
    by (simp add: init_state_def)
  note inst = entries_only_from_found_years
    [of toyota_world "''Toyota''" 2006 "init_state Map.empty" Map.empty]
  have mem: "camry_entry \<in> set (emitted toyota_world ''Toyota'' 2006 (init_state Map.empty))"
    by (simp add: emitted_toyota_2006)
  from inst mem have "e_year camry_entry = str_int 2006" by blast
  then have 2: "e_year camry_entry = ''2006''" by (simp add: str_int_2006)
  from inst camry_entry_in_run
  have 3: "\<exists>mk \<in> set MAKES. \<exists>year. YEAR_START \<le> year \<and> year \<le> YEAR_END
          \<and> e_year camry_entry = str_int year
          \<and> (\<exists>body. HttpGet (listing_url mk year) 10 (Response 200 body)
                       \<in> set (trace (build_and_write_manifest toyota_world Map.empty)))"
    by blast
  from 1 emitted_toyota_2006 2 camry_entry_in_run 3 show ?thesis by blast
qed

text \<open>
  C6, as the code has it. Whatever was at the output path before, a run ends by unlinking
  that path, writing the file and logging the count, in this order. The file is the header
  \<open>make,model,year,bundle_url\<close> followed by one CSV record per manifest entry, in manifest
  order, each ended by CR LF. The record of an entry whose model and \<open>bundle_url\<close> hold no
  line feed is one line; when that is so for every entry, the file has one line more than
  the manifest has entries.
\<close>

theorem artifact_header_and_records:
  "files (build_and_write_manifest w fs) OUTPUT_CSV =
     Some (writeheader @ writerows (manifest (build_and_write_manifest w fs)))
   \<and> writeheader = ''make,model,year,bundle_url'' @ [CR, LF]
   \<and> writerows (manifest (build_and_write_manifest w fs)) =
       concat (map (\<lambda>e. writerow [e_make e, e_model e, e_year e, e_bundle_url e])
                 (manifest (build_and_write_manifest w fs)))
   \<and> (\<exists>scan. trace (build_and_write_manifest w fs) =
         scan @ [Unlink OUTPUT_CSV,
                 WriteFile OUTPUT_CSV (writeheader @ writerows (manifest (build_and_write_manifest w fs))),
                 LogWrote (length (manifest (build_and_write_manifest w fs))) OUTPUT_CSV])
   \<and> (\<forall>e \<in> set (manifest (build_and_write_manifest w fs)).
         LF \<notin> set (e_model e) \<and> LF \<notin> set (e_bundle_url e)
         \<longrightarrow> count_lines (writerow [e_make e, e_model e, e_year e, e_bundle_url e]) = 1)
   \<and> ((\<forall>e \<in> set (manifest (build_and_write_manifest w fs)).
          LF \<notin> set (e_model e) \<and> LF \<notin> set (e_bundle_url e))
       \<longrightarrow> count_lines (writeheader @ writerows (manifest (build_and_write_manifest w fs))) =
             length (manifest (build_and_write_manifest w fs)) + 1)"
proof -
  let ?m = "manifest (build_and_write_manifest w fs)"
  have clean: "count_lines (e_make e) = 0 \<and> count_lines (e_year e) = 0" if "e \<in> set ?m" for e
  proof -
    from that have "e \<in> set (manifest (make_loop w MAKES (init_state fs)))"
      by (simp add: build_manifest)
    with scan_provenance [of w MAKES fs] obtain mk year where
      "mk \<in> set MAKES" "e_make e = unquote mk" "e_year e = str_int year"
      by blast
    then show ?thesis
      using makes_decoded_no_LF [of mk] str_int_no_LF [of year] by (simp add: count_lines_0)
  qed
  have 1: "files (build_and_write_manifest w fs) OUTPUT_CSV = Some (writeheader @ writerows ?m)"
    by (simp add: build_files build_manifest)
  have 3: "writerows ?m = concat (map (\<lambda>e. writerow [e_make e, e_model e, e_year e, e_bundle_url e]) ?m)"
    by (simp add: writerows_def dict_row_def)
  have 4: "\<exists>scan. trace (build_and_write_manifest w fs) =
         scan @ [Unlink OUTPUT_CSV, WriteFile OUTPUT_CSV (writeheader @ writerows ?m),
                 LogWrote (length ?m) OUTPUT_CSV]"
    by (simp add: build_trace build_manifest)
  have 5: "count_lines (writerow [e_make e, e_model e, e_year e, e_bundle_url e]) = 1"
    if "e \<in> set ?m" "LF \<notin> set (e_model e) \<and> LF \<notin> set (e_bundle_url e)" for e
    using that clean [of e] by (simp add: count_lines_writerow count_lines_0)
  have 6: "count_lines (writeheader @ writerows ?m) = length ?m + 1"
    if h: "\<forall>e \<in> set ?m. LF \<notin> set (e_model e) \<and> LF \<notin> set (e_bundle_url e)"
  proof -
    have "(\<Sum>e\<leftarrow>?m. count_lines (e_make e) + count_lines (e_model e)
                          + count_lines (e_year e) + count_lines (e_bundle_url e)) = 0"
      using h clean by (simp add: count_lines_0)
    moreover have "count_lines writeheader = 1"
      by (simp add: writeheader_eq count_lines_def LF_def CR_def)
    ultimately show ?thesis by (simp add: count_lines_writerows)
  qed
  from 1 writeheader_eq 3 4 5 6 show ?thesis by blast
qed

theorem artifact_header_and_records_witness:
  "manifest (build_and_write_manifest acura_world [OUTPUT_CSV \<mapsto> ''old'']) = [integra_ls_entry]
   \<and> files (build_and_write_manifest acura_world [OUTPUT_CSV \<mapsto> ''old'']) OUTPUT_CSV =
       Some (''make,model,year,bundle_url'' @ [CR, LF] @
             ''Acura,Integra LS,1980,https://charm.li/bundle/Acura/1980/integra/'' @ [CR, LF])
   \<and> count_lines (''make,model,year,bundle_url'' @ [CR, LF] @
             ''Acura,Integra LS,1980,https://charm.li/bundle/Acura/1980/integra/'' @ [CR, LF]) = 2"
proof -
  let ?st = "build_and_write_manifest acura_world [OUTPUT_CSV \<mapsto> ''old'']"
  note inst = artifact_header_and_records [of acura_world "[OUTPUT_CSV \<mapsto> ''old'']"]
  have m: "manifest ?st = [integra_ls_entry]" by (rule acura_run_manifest)
  have h: "\<forall>e \<in> set (manifest ?st). LF \<notin> set (e_model e) \<and> LF \<notin> set (e_bundle_url e)"
    by (simp add: m integra_ls_entry_def LF_def)
  have c: "writeheader @ writerows (manifest ?st) =
      ''make,model,year,bundle_url'' @ [CR, LF] @
      ''Acura,Integra LS,1980,https://charm.li/bundle/Acura/1980/integra/'' @ [CR, LF]"
    by (simp add: m writeheader_eq writerows_def writerow_def dict_row_def integra_ls_entry_def
        csv_field_def csv_must_quote_def DQUOTE_def CR_def LF_def)
  from inst h have "count_lines (writeheader @ writerows (manifest ?st)) = length (manifest ?st) + 1"
    by blast
  then have n: "count_lines (''make,model,year,bundle_url'' @ [CR, LF] @
      ''Acura,Integra LS,1980,https://charm.li/bundle/Acura/1980/integra/'' @ [CR, LF]) = 2"
    unfolding c by (simp add: m)
  from inst have "files ?st OUTPUT_CSV = Some (writeheader @ writerows (manifest ?st))"
    by blast
  then have f: "files ?st OUTPUT_CSV =
      Some (''make,model,year,bundle_url'' @ [CR, LF] @
            ''Acura,Integra LS,1980,https://charm.li/bundle/Acura/1980/integra/'' @ [CR, LF])"
    unfolding c .
  from m f n show ?thesis by blast
qed

theorem artifact_line_count_counterexample:
  "manifest (build_and_write_manifest newline_world Map.empty) = [integra_entry]
   \<and> files (build_and_write_manifest newline_world Map.empty) OUTPUT_CSV =
       Some (''make,model,year,bundle_url'' @ [CR, LF] @
             ''Acura,'' @ [DQUOTE] @ ''Integra'' @ [LF] @ ''LS'' @ [DQUOTE] @
             '',1980,https://charm.li/bundle/Acura/1980/integra/'' @ [CR, LF])
   \<and> count_lines (''make,model,year,bundle_url'' @ [CR, LF] @
             ''Acura,'' @ [DQUOTE] @ ''Integra'' @ [LF] @ ''LS'' @ [DQUOTE] @
             '',1980,https://charm.li/bundle/Acura/1980/integra/'' @ [CR, LF]) = 3
   \<and> length (manifest (build_and_write_manifest newline_world Map.empty)) + 1 = 2"
proof -
  let ?st = "build_and_write_manifest newline_world Map.empty"
  have m: "manifest ?st = [integra_entry]" by (rule newline_run_manifest)
  have "files ?st OUTPUT_CSV = Some (writeheader @ writerows (manifest ?st))"
    by (simp add: build_files build_manifest)
  also have "writeheader @ writerows (manifest ?st) =
      ''make,model,year,bundle_url'' @ [CR, LF] @
      ''Acura,'' @ [DQUOTE] @ ''Integra'' @ [LF] @ ''LS'' @ [DQUOTE] @
      '',1980,https://charm.li/bundle/Acura/1980/integra/'' @ [CR, LF]"
    by (simp add: m writeheader_eq writerows_def writerow_def dict_row_def integra_entry_def
        csv_field_def csv_must_quote_def DQUOTE_def CR_def LF_def)
  finally have f: "files ?st OUTPUT_CSV =
      Some (''make,model,year,bundle_url'' @ [CR, LF] @
            ''Acura,'' @ [DQUOTE] @ ''Integra'' @ [LF] @ ''LS'' @ [DQUOTE] @
            '',1980,https://charm.li/bundle/Acura/1980/integra/'' @ [CR, LF])" .
  have n: "count_lines (''make,model,year,bundle_url'' @ [CR, LF] @
             ''Acura,'' @ [DQUOTE] @ ''Integra'' @ [LF] @ ''LS'' @ [DQUOTE] @
             '',1980,https://charm.li/bundle/Acura/1980/integra/'' @ [CR, LF]) = 3"
    by (simp add: count_lines_def DQUOTE_def CR_def LF_def)
  from m f n show ?thesis by simp
qed

text \<open>
  C1 fails on the code. Against a server that cannot be reached, the run logs and sleeps
  once for each make and then sends the forty-five probes of that make back to back: the
  probe for 1981 follows the failed probe for 1980 with no sleep between them.
\<close>

theorem probes_after_failure_not_throttled:
  "trace (build_and_write_manifest dead_world fs) =
     concat (map (\<lambda>mk. LogChecking mk # Sleep THROTTLE #
               map (\<lambda>year. HttpGet (listing_url mk year) 10 (Failure ConnectionError))
                 [YEAR_START..YEAR_END]) MAKES)
     @ [Unlink OUTPUT_CSV, WriteFile OUTPUT_CSV writeheader, LogWrote 0 OUTPUT_CSV]
   \<and> take 4 (trace (build_and_write_manifest dead_world fs)) =
       [LogChecking ''Acura'', Sleep 300,
        HttpGet ''https://charm.li/Acura/1980/'' 10 (Failure ConnectionError),
        HttpGet ''https://charm.li/Acura/1981/'' 10 (Failure ConnectionError)]
   \<and> \<not> throttled False (trace (build_and_write_manifest dead_world fs))"
proof -
  let ?probe = "\<lambda>mk year. HttpGet (listing_url mk year) 10 (Failure ConnectionError)"
  let ?per_make = "\<lambda>mk. LogChecking mk # Sleep THROTTLE # map (?probe mk) [YEAR_START..YEAR_END]"
  have dead: "\<forall>n u. http dead_world n u = Failure ConnectionError"
    by (simp add: dead_world_def)
  have scan: "trace (make_loop dead_world MAKES (init_state fs)) = concat (map ?per_make MAKES)"
    by (simp add: make_loop_unreachable_trace [OF dead] init_state_def)
  have "manifest (make_loop dead_world MAKES (init_state fs)) = manifest (init_state fs)"
    using make_loop_after_outage [of 0 dead_world "init_state fs" MAKES] dead by simp
  then have empty: "manifest (make_loop dead_world MAKES (init_state fs)) = []"
    by (simp add: init_state_def)
  have 1: "trace (build_and_write_manifest dead_world fs) =
      concat (map ?per_make MAKES)
      @ [Unlink OUTPUT_CSV, WriteFile OUTPUT_CSV writeheader, LogWrote 0 OUTPUT_CSV]"
    by (simp add: build_trace scan empty writerows_def)
  have "concat (map ?per_make MAKES) = ?per_make ''Acura'' @ concat (map ?per_make (tl MAKES))"
    by (subst makes_unfold) simp
  also have "?per_make ''Acura'' =
      [LogChecking ''Acura'', Sleep 300,
       HttpGet ''https://charm.li/Acura/1980/'' 10 (Failure ConnectionError),
       HttpGet ''https://charm.li/Acura/1981/'' 10 (Failure ConnectionError)]
      @ map (?probe ''Acura'') [1982..2024]"
    by (simp add: years_unfold THROTTLE_def BASE_URL_def str_int_1980 str_int_1981)
  finally have 2: "take 4 (trace (build_and_write_manifest dead_world fs)) =
      [LogChecking ''Acura'', Sleep 300,
       HttpGet ''https://charm.li/Acura/1980/'' 10 (Failure ConnectionError),
       HttpGet ''https://charm.li/Acura/1981/'' 10 (Failure ConnectionError)]"
    by (simp add: 1)
  have "\<not> throttled False (take 4 (trace (build_and_write_manifest dead_world fs)))"
    unfolding 2 by (simp add: THROTTLE_def)
  then have 3: "\<not> throttled False (trace (build_and_write_manifest dead_world fs))"
    using throttled_prefix [of False "take 4 (trace (build_and_write_manifest dead_world fs))"
        "drop 4 (trace (build_and_write_manifest dead_world fs))"]
    by auto
  from 1 2 3 show ?thesis by blast
qed

text \<open>
  C8 fails on the code. The queried model is pasted into the \<open>ILIKE\<close> pattern, where \<open>_\<close>
  and \<open>%\<close> are wild cards: the query for \<open>F_150\<close> returns the row of the \<open>F-150\<close>, whose
  model does not contain \<open>F_150\<close> in any letter case.
\<close>

theorem lookup_wildcard_matches_non_substring:
  "query_manifest_run [f150_row] ''Ford'' ''F_150'' ''2006'' =
     [''https://charm.li/bundle/Ford/2006/f-150/'']
   \<and> \<not> sublist (lower ''F_150'') (lower (e_model f150_row))"
  by (simp add: query_manifest_run_def f150_row_def ilike_def lower_def ascii_lower_def
      sublist_Cons_right)

text \<open>
  C3, as the code has it. After a successful fetch the scraper returns, in document order,
  exactly one pair for each link whose href (white space at its two ends removed) starts
  with \<open>/make/year/\<close> and does not end with \<open>/bundle/\<close>: the text of the link as
  \<open>get_text(strip=True)\<close> gives it (each text node stripped, the empty ones dropped, the
  rest joined with no separator) and base URL + \<open>/bundle\<close> + href. That text is the stripped
  link text when the link has at most one text node. For the Toyota 2006 page with the link
  \<open>/Toyota/2006/camry-le/\<close>, text \<open>Camry LE\<close>, and one link ending in \<open>/bundle/\<close>, in
  either order, the result is exactly
  \<open>[("Camry LE", "https://charm.li/bundle/Toyota/2006/camry-le/")]\<close>.
\<close>

theorem scraper_keeps_detail_links:
  assumes "http w (sent st) year_url = Response code text"
    and "\<not> (400 \<le> code \<and> code < 600)"
  shows "fst (get_models_for_year w mk year year_url st) =
           map (\<lambda>a. (get_text_strip a, BASE_URL @ ''/bundle'' @ py_strip (attr_href a)))
             (filter (detail_link mk year) (select_a_href w text))
         \<and> ((\<forall>a \<in> set (select_a_href w text). detail_link mk year a \<longrightarrow> length (strings a) \<le> 1)
             \<longrightarrow> fst (get_models_for_year w mk year year_url st) =
                   map (\<lambda>a. (stripped_link_text a, BASE_URL @ ''/bundle'' @ py_strip (attr_href a)))
                     (filter (detail_link mk year) (select_a_href w text)))
         \<and> (\<forall>h ts. endswith h ''/bundle/'' \<and> mk = ''Toyota'' \<and> year = 2006
               \<and> (select_a_href w text = [camry_anchor, \<lparr>attr_href = h, strings = ts\<rparr>]
                  \<or> select_a_href w text = [\<lparr>attr_href = h, strings = ts\<rparr>, camry_anchor])
             \<longrightarrow> fst (get_models_for_year w mk year year_url st) =
                   [(''Camry LE'', ''https://charm.li/bundle/Toyota/2006/camry-le/'')])"
proof -
  let ?pair = "\<lambda>a. (get_text_strip a, BASE_URL @ ''/bundle'' @ py_strip (attr_href a))"
  have gen: "fst (get_models_for_year w mk year year_url st) =
           map ?pair (filter (detail_link mk year) (select_a_href w text))"
  proof -
    have d: "detail_link mk year =
        (\<lambda>a. startswith (py_strip (attr_href a)) (''/'' @ mk @ ''/'' @ str_int year @ ''/'')
             \<and> \<not> endswith (py_strip (attr_href a)) ''/bundle/'')"
      by (simp add: fun_eq_iff detail_link_def)
    from assms(2) have "raise_for_status code = None"
      by (simp add: raise_for_status_def)
    with assms(1) show ?thesis
      unfolding d by (simp add: get_models_fst anchors_loop_eq)
  qed
  have one: "map ?pair (filter (detail_link mk year) (select_a_href w text)) =
      map (\<lambda>a. (stripped_link_text a, BASE_URL @ ''/bundle'' @ py_strip (attr_href a)))
        (filter (detail_link mk year) (select_a_href w text))"
    if "\<forall>a \<in> set (select_a_href w text). detail_link mk year a \<longrightarrow> length (strings a) \<le> 1"
    using that by (auto simp: get_text_strip_one_node)
  have camry: "detail_link ''Toyota'' 2006 camry_anchor"
    by (simp add: detail_link_def camry_anchor_def py_strip_def py_isspace_def startswith_def
        endswith_def str_int_2006)
  have pair: "?pair camry_anchor =
      (''Camry LE'', ''https://charm.li/bundle/Toyota/2006/camry-le/'')"
    by (simp add: camry_anchor_def get_text_strip_def py_strip_def py_isspace_def BASE_URL_def)
  have other: "\<not> detail_link ''Toyota'' 2006 \<lparr>attr_href = h, strings = ts\<rparr>"
    if "endswith h ''/bundle/''" for h ts
    using py_strip_keeps_bundle [OF that] by (simp add: detail_link_def)
  have scen: "fst (get_models_for_year w mk year year_url st) =
                   [(''Camry LE'', ''https://charm.li/bundle/Toyota/2006/camry-le/'')]"
    if "endswith h ''/bundle/'' \<and> mk = ''Toyota'' \<and> year = 2006
               \<and> (select_a_href w text = [camry_anchor, \<lparr>attr_href = h, strings = ts\<rparr>]
                  \<or> select_a_href w text = [\<lparr>attr_href = h, strings = ts\<rparr>, camry_anchor])" for h ts
    unfolding gen using that camry pair other [of h ts] by auto
  show ?thesis
  proof (intro conjI impI allI)
    show "fst (get_models_for_year w mk year year_url st) =
        map ?pair (filter (detail_link mk year) (select_a_href w text))"
      by (rule gen)
  next
    assume "\<forall>a \<in> set (select_a_href w text). detail_link mk year a \<longrightarrow> length (strings a) \<le> 1"
    then show "fst (get_models_for_year w mk year year_url st) =
        map (\<lambda>a. (stripped_link_text a, BASE_URL @ ''/bundle'' @ py_strip (attr_href a)))
          (filter (detail_link mk year) (select_a_href w text))"
      using gen one by simp
  next
    fix h ts
    assume "endswith h ''/bundle/'' \<and> mk = ''Toyota'' \<and> year = 2006
               \<and> (select_a_href w text = [camry_anchor, \<lparr>attr_href = h, strings = ts\<rparr>]
                  \<or> select_a_href w text = [\<lparr>attr_href = h, strings = ts\<rparr>, camry_anchor])"
    then show "fst (get_models_for_year w mk year year_url st) =
        [(''Camry LE'', ''https://charm.li/bundle/Toyota/2006/camry-le/'')]"
      by (rule scen)
  qed
qed

theorem scraper_keeps_detail_links_witness:
  "fst (get_models_for_year padded_world ''Toyota'' 2006 ''https://charm.li/Toyota/2006/''
         (init_state Map.empty)) =
     [(''Camry LE'', ''https://charm.li/bundle/Toyota/2006/camry-le/'')]
   \<and> fst (get_models_for_year toyota_world ''Toyota'' 2006 ''https://charm.li/Toyota/2006/''
         (init_state Map.empty)) =
     [(''Camry LE'', ''https://charm.li/bundle/Toyota/2006/camry-le/'')]"
proof -
  have ok: "\<not> (400 \<le> (200::nat) \<and> (200::nat) < 600)" by simp
  have rp: "http padded_world (sent (init_state Map.empty)) ''https://charm.li/Toyota/2006/'' =
      Response 200 ''page''"
    by (simp add: padded_world_def)
  have selp: "select_a_href padded_world ''page'' = [padded_anchor, padded_bundle_anchor]"
    by (simp add: padded_world_def)
  have dp: "detail_link ''Toyota'' 2006 padded_anchor"
    "\<not> detail_link ''Toyota'' 2006 padded_bundle_anchor"
    by (simp_all add: detail_link_def padded_anchor_def padded_bundle_anchor_def py_strip_def
        py_isspace_def startswith_def endswith_def str_int_2006)
  have onep: "\<forall>a \<in> set (select_a_href padded_world ''page'').
      detail_link ''Toyota'' 2006 a \<longrightarrow> length (strings a) \<le> 1"
    by (simp add: selp padded_anchor_def padded_bundle_anchor_def)
  have tp: "stripped_link_text padded_anchor = ''Camry LE''"
    "py_strip (attr_href padded_anchor) = ''/Toyota/2006/camry-le/''"
    by (simp_all add: stripped_link_text_def padded_anchor_def py_strip_def py_isspace_def)
  from scraper_keeps_detail_links [OF rp ok, of "''Toyota''" 2006] onep
  have "fst (get_models_for_year padded_world ''Toyota'' 2006 ''https://charm.li/Toyota/2006/''
         (init_state Map.empty)) =
      map (\<lambda>a. (stripped_link_text a, BASE_URL @ ''/bundle'' @ py_strip (attr_href a)))
        (filter (detail_link ''Toyota'' 2006) (select_a_href padded_world ''page''))"
    by blast
  then have 1: "fst (get_models_for_year padded_world ''Toyota'' 2006 ''https://charm.li/Toyota/2006/''
         (init_state Map.empty)) =
     [(''Camry LE'', ''https://charm.li/bundle/Toyota/2006/camry-le/'')]"
    by (simp add: selp dp tp BASE_URL_def)
  have r: "http toyota_world (sent (init_state Map.empty)) ''https://charm.li/Toyota/2006/'' =
      Response 200 ''page''"
    by (simp add: toyota_world_def)
  have sel: "select_a_href toyota_world ''page'' =
      [camry_anchor, \<lparr>attr_href = ''/Toyota/2006/camry-le/bundle/'', strings = [''All manuals'']\<rparr>]"
    by (simp add: toyota_world_def bundle_anchor_def)
  have e: "endswith ''/Toyota/2006/camry-le/bundle/'' ''/bundle/''"
    by (simp add: endswith_def)
  from scraper_keeps_detail_links [OF r ok, of "''Toyota''" 2006] sel e
  have 2: "fst (get_models_for_year toyota_world ''Toyota'' 2006 ''https://charm.li/Toyota/2006/''
         (init_state Map.empty)) =
     [(''Camry LE'', ''https://charm.li/bundle/Toyota/2006/camry-le/'')]"
    by blast
  from 1 2 show ?thesis by simp
qed

theorem stripped_link_text_counterexample:
  "select_a_href nested_world ''page'' = [nested_anchor]
   \<and> detail_link ''Acura'' 1980 nested_anchor
   \<and> stripped_link_text nested_anchor = ''Integra LS''
   \<and> fst (get_models_for_year nested_world ''Acura'' 1980 ''https://charm.li/Acura/1980/''
          (init_state Map.empty)) =
       [(''IntegraLS'', ''https://charm.li/bundle/Acura/1980/integra/'')]"
  by (simp add: get_models_fst nested_world_def nested_anchor_def raise_for_status_def
      detail_link_def stripped_link_text_def get_text_strip_def py_strip_def py_isspace_def
      startswith_def endswith_def str_int_1980 BASE_URL_def)

text \<open>
  C7, as the code has it. When the fetch of the listing page fails, that is, the request
  raises (connection error, time-out, DNS failure) or the status is between 400 and 599,
  the ones that \<open>raise_for_status\<close> rejects, the scraper logs one warning and returns no
  entry; the year loop then goes on with the remaining years, the manifest unchanged by
  that page. A response with any other status, 304 or 600 for instance, is no failure for
  the scraper: its body is parsed as a listing and no warning is logged.
\<close>

theorem listing_fetch_failure_recoverable:
  "(\<forall>(s::state) u f. http w (sent s) u = Failure f \<longrightarrow>
      get_models_for_year w mk year u s =
        ([], s\<lparr>trace := trace s @ [HttpGet u 15 (Failure f), LogWarning u (Transport f)],
               sent := Suc (sent s)\<rparr>))
   \<and> (\<forall>(s::state) u code text. http w (sent s) u = Response code text \<and> 400 \<le> code \<and> code < 600 \<longrightarrow>
      get_models_for_year w mk year u s =
        ([], s\<lparr>trace := trace s @ [HttpGet u 15 (Response code text), LogWarning u (HTTPError code)],
               sent := Suc (sent s)\<rparr>))
   \<and> (\<forall>(s::state) u code text. http w (sent s) u = Response code text \<and> \<not> (400 \<le> code \<and> code < 600) \<longrightarrow>
      get_models_for_year w mk year u s =
        (map (\<lambda>a. (get_text_strip a, BASE_URL @ ''/bundle'' @ py_strip (attr_href a)))
           (filter (detail_link mk year) (select_a_href w text)),
         s\<lparr>trace := trace s @ [HttpGet u 15 (Response code text)], sent := Suc (sent s)\<rparr>))
   \<and> (\<forall>body r e years.
        http w (sent st) (listing_url mk year) = Response 200 body
        \<and> http w (Suc (sent st)) (listing_url mk year) = r
        \<and> ((\<exists>f. r = Failure f \<and> e = Transport f)
           \<or> (\<exists>code text. r = Response code text \<and> 400 \<le> code \<and> code < 600 \<and> e = HTTPError code))
        \<longrightarrow> year_loop w mk (year # years) st =
              year_loop w mk years
                (st\<lparr>trace := trace st @
                       [HttpGet (listing_url mk year) 10 (Response 200 body), LogFound mk year,
                        HttpGet (listing_url mk year) 15 r, LogWarning (listing_url mk year) e,
                        Sleep THROTTLE],
                     sent := Suc (Suc (sent st))\<rparr>))"
proof (intro conjI allI impI)
  fix s :: state and u f
  assume "http w (sent s) u = Failure f"
  then show "get_models_for_year w mk year u s =
        ([], s\<lparr>trace := trace s @ [HttpGet u 15 (Failure f), LogWarning u (Transport f)],
               sent := Suc (sent s)\<rparr>)"
    by (simp add: get_models_for_year_def requests_get_def emit_def Let_def)
next
  fix s :: state and u code page
  assume "http w (sent s) u = Response code page \<and> 400 \<le> code \<and> code < 600"
  then show "get_models_for_year w mk year u s =
        ([], s\<lparr>trace := trace s @ [HttpGet u 15 (Response code page), LogWarning u (HTTPError code)],
               sent := Suc (sent s)\<rparr>)"
    by (simp add: get_models_for_year_def requests_get_def emit_def raise_for_status_def Let_def)
next
  fix s :: state and u code page
  assume a: "http w (sent s) u = Response code page \<and> \<not> (400 \<le> code \<and> code < 600)"
  have d: "detail_link mk year =
        (\<lambda>a. startswith (py_strip (attr_href a)) (''/'' @ mk @ ''/'' @ str_int year @ ''/'')
             \<and> \<not> endswith (py_strip (attr_href a)) ''/bundle/'')"
    by (simp add: fun_eq_iff detail_link_def)
  from a have "raise_for_status code = None" by (simp add: raise_for_status_def)
  with a show "get_models_for_year w mk year u s =
        (map (\<lambda>a. (get_text_strip a, BASE_URL @ ''/bundle'' @ py_strip (attr_href a)))
           (filter (detail_link mk year) (select_a_href w page)),
         s\<lparr>trace := trace s @ [HttpGet u 15 (Response code page)], sent := Suc (sent s)\<rparr>)"
    unfolding d
    by (simp add: get_models_for_year_def requests_get_def emit_def Let_def anchors_loop_eq)
next
  fix body r e years
  assume a: "http w (sent st) (listing_url mk year) = Response 200 body
        \<and> http w (Suc (sent st)) (listing_url mk year) = r
        \<and> ((\<exists>f. r = Failure f \<and> e = Transport f)
           \<or> (\<exists>code page. r = Response code page \<and> 400 \<le> code \<and> code < 600 \<and> e = HTTPError code))"
  then have gm: "get_models_for_year w mk year u s =
      ([], s\<lparr>trace := trace s @ [HttpGet u 15 r, LogWarning u e], sent := Suc (sent s)\<rparr>)"
    if "http w (sent s) u = r" for s :: state and u
    using that
    by (auto simp: get_models_for_year_def requests_get_def emit_def raise_for_status_def Let_def)
  have pr: "probe_year w mk year st =
      (Some (listing_url mk year),
       st\<lparr>trace := trace st @ [HttpGet (listing_url mk year) 10 (Response 200 body)],
          sent := Suc (sent st)\<rparr>)"
    using a by (simp add: probe_year_def requests_get_def emit_def Let_def)
  have "year_body w mk year st =
      st\<lparr>trace := trace st @
             [HttpGet (listing_url mk year) 10 (Response 200 body), LogFound mk year,
              HttpGet (listing_url mk year) 15 r, LogWarning (listing_url mk year) e,
              Sleep THROTTLE],
           sent := Suc (Suc (sent st))\<rparr>"
    using a by (simp add: year_body_def pr gm listing_url_nonempty emit_def Let_def)
  then show "year_loop w mk (year # years) st =
              year_loop w mk years
                (st\<lparr>trace := trace st @
                       [HttpGet (listing_url mk year) 10 (Response 200 body), LogFound mk year,
                        HttpGet (listing_url mk year) 15 r, LogWarning (listing_url mk year) e,
                        Sleep THROTTLE],
                     sent := Suc (Suc (sent st))\<rparr>)"
    by simp
qed

theorem listing_fetch_failure_recoverable_witness:
  "year_loop flaky_world ''Toyota'' [2006, 2007] (init_state Map.empty) =
     year_loop flaky_world ''Toyota'' [2007]
       \<lparr>manifest = [],
        trace = [HttpGet ''https://charm.li/Toyota/2006/'' 10 (Response 200 ''page''),
                 LogFound ''Toyota'' 2006,
                 HttpGet ''https://charm.li/Toyota/2006/'' 15 (Failure Timeout),
                 LogWarning ''https://charm.li/Toyota/2006/'' (Transport Timeout),
                 Sleep 300],
        sent = 2, files = Map.empty\<rparr>
   \<and> get_models_for_year gone_world ''Saab'' 1985 ''https://charm.li/Saab/1985/''
        (init_state Map.empty) =
      ([], \<lparr>manifest = [],
            trace = [HttpGet ''https://charm.li/Saab/1985/'' 15 (Response 404 ''not found''),
                     LogWarning ''https://charm.li/Saab/1985/'' (HTTPError 404)],
            sent = 1, files = Map.empty\<rparr>)
   \<and> get_models_for_year dead_world ''Saab'' 1985 ''https://charm.li/Saab/1985/''
        (init_state Map.empty) =
      ([], \<lparr>manifest = [],
            trace = [HttpGet ''https://charm.li/Saab/1985/'' 15 (Failure ConnectionError),
                     LogWarning ''https://charm.li/Saab/1985/'' (Transport ConnectionError)],
            sent = 1, files = Map.empty\<rparr>)
   \<and> get_models_for_year toyota_world ''Toyota'' 2006 ''https://charm.li/Toyota/2006/''
        (init_state Map.empty) =
      ([(''Camry LE'', ''https://charm.li/bundle/Toyota/2006/camry-le/'')],
       \<lparr>manifest = [],
        trace = [HttpGet ''https://charm.li/Toyota/2006/'' 15 (Response 200 ''page'')],
        sent = 1, files = Map.empty\<rparr>)"
proof -
  have a: "http flaky_world (sent (init_state Map.empty)) (listing_url ''Toyota'' 2006) = Response 200 ''page''
      \<and> http flaky_world (Suc (sent (init_state Map.empty))) (listing_url ''Toyota'' 2006) = Failure Timeout
      \<and> ((\<exists>f. Failure Timeout = Failure f \<and> Transport Timeout = Transport f)
        \<or> (\<exists>code text. Failure Timeout = Response code text \<and> 400 \<le> code \<and> code < 600
              \<and> Transport Timeout = HTTPError code))"
    by (simp add: flaky_world_def init_state_def)
  from listing_fetch_failure_recoverable [of flaky_world "''Toyota''" 2006 "init_state Map.empty"] a
  have "year_loop flaky_world ''Toyota'' (2006 # [2007]) (init_state Map.empty) =
      year_loop flaky_world ''Toyota'' [2007]
        ((init_state Map.empty)\<lparr>trace := trace (init_state Map.empty) @
             [HttpGet (listing_url ''Toyota'' 2006) 10 (Response 200 ''page''), LogFound ''Toyota'' 2006,
              HttpGet (listing_url ''Toyota'' 2006) 15 (Failure Timeout),
              LogWarning (listing_url ''Toyota'' 2006) (Transport Timeout), Sleep THROTTLE],
           sent := Suc (Suc (sent (init_state Map.empty)))\<rparr>)"
    by blast
  then have 1: "year_loop flaky_world ''Toyota'' [2006, 2007] (init_state Map.empty) =
     year_loop flaky_world ''Toyota'' [2007]
       \<lparr>manifest = [],
        trace = [HttpGet ''https://charm.li/Toyota/2006/'' 10 (Response 200 ''page''),
                 LogFound ''Toyota'' 2006,
                 HttpGet ''https://charm.li/Toyota/2006/'' 15 (Failure Timeout),
                 LogWarning ''https://charm.li/Toyota/2006/'' (Transport Timeout),
                 Sleep 300],
        sent = 2, files = Map.empty\<rparr>"
    unfolding listing_url_toyota_2006
    by (simp add: init_state_def THROTTLE_def numeral_2_eq_2)
  have g: "http gone_world (sent (init_state Map.empty)) ''https://charm.li/Saab/1985/'' =
      Response 404 ''not found'' \<and> (400::nat) \<le> 404 \<and> (404::nat) < 600"
    by (simp add: gone_world_def)
  from listing_fetch_failure_recoverable [of gone_world "''Saab''" 1985] g
  have "get_models_for_year gone_world ''Saab'' 1985 ''https://charm.li/Saab/1985/''
        (init_state Map.empty) =
      ([], (init_state Map.empty)\<lparr>trace := trace (init_state Map.empty) @
             [HttpGet ''https://charm.li/Saab/1985/'' 15 (Response 404 ''not found''),
              LogWarning ''https://charm.li/Saab/1985/'' (HTTPError 404)],
           sent := Suc (sent (init_state Map.empty))\<rparr>)"
    by blast
  then have 2: "get_models_for_year gone_world ''Saab'' 1985 ''https://charm.li/Saab/1985/''
        (init_state Map.empty) =
      ([], \<lparr>manifest = [],
            trace = [HttpGet ''https://charm.li/Saab/1985/'' 15 (Response 404 ''not found''),
                     LogWarning ''https://charm.li/Saab/1985/'' (HTTPError 404)],
            sent = 1, files = Map.empty\<rparr>)"
    by (simp add: init_state_def)
  have d: "http dead_world (sent (init_state Map.empty)) ''https://charm.li/Saab/1985/'' =
      Failure ConnectionError"
    by (simp add: dead_world_def)
  from listing_fetch_failure_recoverable [of dead_world "''Saab''" 1985] d
  have "get_models_for_year dead_world ''Saab'' 1985 ''https://charm.li/Saab/1985/''
        (init_state Map.empty) =
      ([], (init_state Map.empty)\<lparr>trace := trace (init_state Map.empty) @
             [HttpGet ''https://charm.li/Saab/1985/'' 15 (Failure ConnectionError),
              LogWarning ''https://charm.li/Saab/1985/'' (Transport ConnectionError)],
           sent := Suc (sent (init_state Map.empty))\<rparr>)"
    by blast
  then have 3: "get_models_for_year dead_world ''Saab'' 1985 ''https://charm.li/Saab/1985/''
        (init_state Map.empty) =
      ([], \<lparr>manifest = [],
            trace = [HttpGet ''https://charm.li/Saab/1985/'' 15 (Failure ConnectionError),
                     LogWarning ''https://charm.li/Saab/1985/'' (Transport ConnectionError)],
            sent = 1, files = Map.empty\<rparr>)"
    by (simp add: init_state_def)
  have t: "http toyota_world (sent (init_state Map.empty)) ''https://charm.li/Toyota/2006/'' =
      Response 200 ''page'' \<and> \<not> (400 \<le> (200::nat) \<and> (200::nat) < 600)"
    by (simp add: toyota_world_def)
  from listing_fetch_failure_recoverable [of toyota_world "''Toyota''" 2006] t
  have "get_models_for_year toyota_world ''Toyota'' 2006 ''https://charm.li/Toyota/2006/''
        (init_state Map.empty) =
      (map (\<lambda>a. (get_text_strip a, BASE_URL @ ''/bundle'' @ py_strip (attr_href a)))
           (filter (detail_link ''Toyota'' 2006) (select_a_href toyota_world ''page'')),
       (init_state Map.empty)\<lparr>trace := trace (init_state Map.empty) @
             [HttpGet ''https://charm.li/Toyota/2006/'' 15 (Response 200 ''page'')],
           sent := Suc (sent (init_state Map.empty))\<rparr>)"
    by blast
  then have 4: "get_models_for_year toyota_world ''Toyota'' 2006 ''https://charm.li/Toyota/2006/''
        (init_state Map.empty) =
      ([(''Camry LE'', ''https://charm.li/bundle/Toyota/2006/camry-le/'')],
       \<lparr>manifest = [],
        trace = [HttpGet ''https://charm.li/Toyota/2006/'' 15 (Response 200 ''page'')],
        sent = 1, files = Map.empty\<rparr>)"
    by (simp add: init_state_def toyota_world_def camry_anchor_def bundle_anchor_def
        detail_link_def get_text_strip_def py_strip_def py_isspace_def startswith_def
        endswith_def str_int_2006 BASE_URL_def)
  from 1 2 3 4 show ?thesis by blast
qed

theorem non_success_status_parsed_counterexample:
  "get_models_for_year not_modified_world ''Toyota'' 2006 ''https://charm.li/Toyota/2006/''
      \<lparr>manifest = [], trace = [], sent = 1, files = Map.empty\<rparr> =
     ([(''Camry LE'', ''https://charm.li/bundle/Toyota/2006/camry-le/'')],
      \<lparr>manifest = [],
       trace = [HttpGet ''https://charm.li/Toyota/2006/'' 15 (Response 304 ''page'')],
       sent = 2, files = Map.empty\<rparr>)
   \<and> manifest (year_body not_modified_world ''Toyota'' 2006 (init_state Map.empty)) = [camry_entry]
   \<and> trace (year_body not_modified_world ''Toyota'' 2006 (init_state Map.empty)) =
       [HttpGet ''https://charm.li/Toyota/2006/'' 10 (Response 200 ''page''),
        LogFound ''Toyota'' 2006,
        HttpGet ''https://charm.li/Toyota/2006/'' 15 (Response 304 ''page''),
        Sleep 300]"
proof -
  have 1: "get_models_for_year not_modified_world ''Toyota'' 2006 ''https://charm.li/Toyota/2006/''
      \<lparr>manifest = [], trace = [], sent = 1, files = Map.empty\<rparr> =
     ([(''Camry LE'', ''https://charm.li/bundle/Toyota/2006/camry-le/'')],
      \<lparr>manifest = [],
       trace = [HttpGet ''https://charm.li/Toyota/2006/'' 15 (Response 304 ''page'')],
       sent = 2, files = Map.empty\<rparr>)"
    by (simp add: get_models_for_year_def requests_get_def emit_def Let_def raise_for_status_def
        not_modified_world_def camry_anchor_def bundle_anchor_def get_text_strip_def py_strip_def
        py_isspace_def startswith_def endswith_def str_int_2006 BASE_URL_def)
  have 2: "manifest (year_body not_modified_world ''Toyota'' 2006 (init_state Map.empty)) = [camry_entry]"
    by (simp add: year_body_emitted emitted_explicit init_state_def raise_for_status_def
        not_modified_world_def camry_anchor_def bundle_anchor_def get_text_strip_def py_strip_def
        py_isspace_def startswith_def endswith_def str_int_2006 BASE_URL_def hex_val_def
        camry_entry_def)
  have 3: "trace (year_body not_modified_world ''Toyota'' 2006 (init_state Map.empty)) =
       [HttpGet ''https://charm.li/Toyota/2006/'' 10 (Response 200 ''page''),
        LogFound ''Toyota'' 2006,
        HttpGet ''https://charm.li/Toyota/2006/'' 15 (Response 304 ''page''),
        Sleep 300]"
    by (simp add: year_body_trace probe_year_fst init_state_def raise_for_status_def
        not_modified_world_def str_int_2006 BASE_URL_def THROTTLE_def)
  from 1 2 3 show ?thesis by blast
qed

text \<open>
  C10, as the code has it. Every entry of a finished run was made from a link of a fetched
  page for a configured make: its \<open>make\<close> is the percent-decoded form of that make, and its
  \<open>bundle_url\<close> is base URL + \<open>/bundle\<close> + the href of the link, which starts with the make
  in its encoded form. When the decoded name has a space, it occurs in the \<open>bundle_url\<close>
  exactly when it occurs in the href of the link: the crawler itself never puts it there.
\<close>

theorem make_decoded_path_encoded:
  "\<forall>e \<in> set (manifest (build_and_write_manifest w fs)).
     \<exists>mk \<in> set MAKES. \<exists>year page. \<exists>a \<in> set (select_a_href w page).
       e_make e = unquote mk
       \<and> e_bundle_url e = BASE_URL @ ''/bundle'' @ py_strip (attr_href a)
       \<and> startswith (py_strip (attr_href a)) (''/'' @ mk @ ''/'' @ str_int year @ ''/'')
       \<and> (CHR '' '' \<in> set (e_make e)
            \<longrightarrow> (sublist (e_make e) (e_bundle_url e)
                   \<longleftrightarrow> sublist (e_make e) (py_strip (attr_href a))))"
proof
  fix e assume "e \<in> set (manifest (build_and_write_manifest w fs))"
  then have "e \<in> set (manifest (make_loop w MAKES (init_state fs)))"
    by (simp add: build_manifest)
  with scan_link_provenance [of w MAKES fs] obtain mk year page a where
    mk: "mk \<in> set MAKES" and a: "a \<in> set (select_a_href w page)"
    and m: "e_make e = unquote mk"
    and b: "e_bundle_url e = BASE_URL @ ''/bundle'' @ py_strip (attr_href a)"
    and h: "startswith (py_strip (attr_href a)) (''/'' @ mk @ ''/'' @ str_int year @ ''/'')"
    by blast
  have "sublist (e_make e) (e_bundle_url e) \<longleftrightarrow> sublist (e_make e) (py_strip (attr_href a))"
    if "CHR '' '' \<in> set (e_make e)"
    using make_only_in_href [OF mk _ h] that unfolding m b by simp
  with mk a m b h
  show "\<exists>mk \<in> set MAKES. \<exists>year page. \<exists>a \<in> set (select_a_href w page).
       e_make e = unquote mk
       \<and> e_bundle_url e = BASE_URL @ ''/bundle'' @ py_strip (attr_href a)
       \<and> startswith (py_strip (attr_href a)) (''/'' @ mk @ ''/'' @ str_int year @ ''/'')
       \<and> (CHR '' '' \<in> set (e_make e)
            \<longrightarrow> (sublist (e_make e) (e_bundle_url e)
                   \<longleftrightarrow> sublist (e_make e) (py_strip (attr_href a))))"
    by blast
qed

theorem make_decoded_path_encoded_witness:
  "ram50_entry \<in> set (manifest (build_and_write_manifest dodge_world Map.empty))
   \<and> e_make ram50_entry = ''Dodge and Ram''
   \<and> e_bundle_url ram50_entry = ''https://charm.li/bundle/Dodge%20and%20Ram/1980/ram 50/''
   \<and> CHR '' '' \<in> set (e_bundle_url ram50_entry)
   \<and> \<not> sublist (e_make ram50_entry) (e_bundle_url ram50_entry)"
proof -
  have mem: "ram50_entry \<in> set (manifest (build_and_write_manifest dodge_world Map.empty))"
    using dodge_entries_in_run by simp
  have sp: "CHR '' '' \<in> set (e_make ram50_entry)"
    by (simp add: ram50_entry_def)
  from make_decoded_path_encoded [of dodge_world Map.empty] mem sp
  obtain a :: anchor where
    b: "e_bundle_url ram50_entry = BASE_URL @ ''/bundle'' @ py_strip (attr_href a)"
    and iff: "sublist (e_make ram50_entry) (e_bundle_url ram50_entry)
                \<longleftrightarrow> sublist (e_make ram50_entry) (py_strip (attr_href a))"
    by blast
  from b have "py_strip (attr_href a) = ''/Dodge%20and%20Ram/1980/ram 50/''"
    by (simp add: ram50_entry_def BASE_URL_def)
  moreover have "\<not> sublist ''Dodge and Ram'' ''/Dodge%20and%20Ram/1980/ram 50/''"
    by (simp add: sublist_Cons_right)
  ultimately have "\<not> sublist (e_make ram50_entry) (e_bundle_url ram50_entry)"
    using iff by (simp add: ram50_entry_def)
  with mem show ?thesis by (simp add: ram50_entry_def)
qed

theorem make_in_bundle_url_counterexample:
  "ramcharger_entry \<in> set (manifest (build_and_write_manifest dodge_world Map.empty))
   \<and> e_make ramcharger_entry = unquote ''Dodge%20and%20Ram''
   \<and> CHR '' '' \<in> set (e_make ramcharger_entry)
   \<and> sublist (e_make ramcharger_entry) (e_bundle_url ramcharger_entry)"
proof -
  have mem: "ramcharger_entry \<in> set (manifest (build_and_write_manifest dodge_world Map.empty))"
    using dodge_entries_in_run by simp
  have "e_bundle_url ramcharger_entry =
      ''https://charm.li/bundle/Dodge%20and%20Ram/1980/'' @ e_make ramcharger_entry @ ''/''"
    by (simp add: ramcharger_entry_def)
  then have "sublist (e_make ramcharger_entry) (e_bundle_url ramcharger_entry)"
    by (simp only: sublist_appendI)
  with mem show ?thesis unfolding unquote_dodge by (simp add: ramcharger_entry_def)
qed

end
